theory Spec2Isabelle
  imports Main "HOL-Library.Word"
begin

section \<open>The dependency deriver\<close>

text \<open>
  \<^verbatim>\<open>DeduplicateNDArrayHandle\<close> (mxnet_glue.h, lines 174-192) works on two vectors of
  tensor handles. Handles are pointers; the only operations the function applies to them
  are \<^verbatim>\<open><\<close> and \<^verbatim>\<open>!=\<close>, so the model is written for any linearly ordered type.
  \<^verbatim>\<open>std::sort\<close> is \<^const>\<open>sort\<close>, and \<^verbatim>\<open>std::unique\<close> followed by \<^verbatim>\<open>resize\<close> is
  \<^const>\<open>remdups_adj\<close> (drop every element equal to its predecessor).

  The inner \<^verbatim>\<open>while (wit != write_nds->end() && *wit < *rit) ++wit;\<close> is
  \<open>advance_wit\<close>; iterators are indices. \<open>wit\<close> starts at \<open>0\<close> and is advanced only
  while it is not the end, so it never passes the end and \<^verbatim>\<open>wit != end\<close> is
  \<open>wit < length write_nds\<close>.
\<close>

function advance_wit :: "'a::linorder list \<Rightarrow> 'a \<Rightarrow> nat \<Rightarrow> nat" where
  "advance_wit write_nds r wit =
     (if wit < length write_nds \<and> write_nds ! wit < r
      then advance_wit write_nds r (Suc wit) else wit)"
  by pat_completeness auto
termination
  by (relation "measure (\<lambda>(write_nds, r, wit). length write_nds - wit)") auto

text \<open>
  The \<^verbatim>\<open>for\<close> loop over \<open>rit\<close>, compacting \<open>read_nds\<close> in place through \<open>rtop\<close>, and
  the final \<^verbatim>\<open>resize(rtop - begin)\<close>.
\<close>

function strip_written :: "'a::linorder list \<Rightarrow> 'a list \<Rightarrow> nat \<Rightarrow> nat \<Rightarrow> nat \<Rightarrow> 'a list" where
  "strip_written read_nds write_nds rit wit rtop =
     (if rit < length read_nds then
        (let wit' = advance_wit write_nds (read_nds ! rit) wit in
         if wit' = length write_nds \<or> write_nds ! wit' \<noteq> read_nds ! rit
         then strip_written (read_nds[rtop := read_nds ! rit]) write_nds (Suc rit) wit' (Suc rtop)
         else strip_written read_nds write_nds (Suc rit) wit' rtop)
      else take rtop read_nds)"
  by pat_completeness auto
termination
  by (relation "measure (\<lambda>(read_nds, write_nds, rit, wit, rtop). length read_nds - rit)") auto

definition DeduplicateNDArrayHandle ::
  "'a::linorder list \<Rightarrow> 'a list \<Rightarrow> 'a list \<times> 'a list" where
  "DeduplicateNDArrayHandle read_nds write_nds =
     (let write_nds' = remdups_adj (sort write_nds);
          read_nds' = remdups_adj (sort read_nds)
      in (strip_written read_nds' write_nds' 0 0 0, write_nds'))"


section \<open>The packed-call ABI, the host primitives and the world\<close>

text \<open>
  Pointers are 64-bit addresses. A \<^verbatim>\<open>TVMValue\<close> is an 8-byte union
  (\<^verbatim>\<open>v_int64\<close>, \<^verbatim>\<open>v_float64\<close>, \<^verbatim>\<open>v_handle\<close>, ...): the model keeps its raw payload,
  so reading \<^verbatim>\<open>.v_handle\<close> is the payload itself and writing \<^verbatim>\<open>.v_handle\<close> replaces it.
\<close>

type_synonym addr = "64 word"
type_synonym NDArrayHandle = addr
type_synonym DLManagedTensorHandle = addr
type_synonym TVMValue = "64 word"

text \<open>
  \<^verbatim>\<open>TVMArgs\<close>: the two parallel arrays and \<^verbatim>\<open>num_args\<close> (what \<^verbatim>\<open>args.size()\<close> returns).
  The lists are the memory readable behind the two pointers.
\<close>

record TVMArgs =
  "values" :: "TVMValue list"
  type_codes :: "int list"
  num_args :: nat

text \<open>
  The header \<^verbatim>\<open>tvm_packed_func.h\<close> and the DLPack header are not part of the sources at
  hand. The constants that \<^verbatim>\<open>mxnet_glue.h\<close> takes from them are parameters of the model:
  the three type codes, DLPack's device type for a GPU, and the offset of the field
  \<^verbatim>\<open>dl_tensor\<close> inside a \<^verbatim>\<open>DLManagedTensor\<close>.
\<close>

record tvm_abi =
  kTVMNDArrayTypeCode :: int
  kArrayHandle :: int
  kTVMType :: int
  kDLGPU :: int
  dl_tensor_offset :: addr

record Context =
  dev_type :: int
  dev_id :: int

text \<open>\<^verbatim>\<open>enum DeviceType { kCPU = 1 << 0, kGPU = 1 << 1, kCPUPinned = 3 }\<close>\<close>

definition kCPU :: int where "kCPU = 1"
definition kGPU :: int where "kGPU = 2"
definition kCPUPinned :: int where "kCPUPinned = 3"

record RunContext =
  ctx :: Context
  stream :: addr

text \<open>
  What the bridge does to the outside is recorded as a trace of events: every call of a
  host primitive, of the stream setter, of the user function and of a managed tensor's
  deleter, and every line written to \<^verbatim>\<open>std::cout\<close>.
\<close>

datatype event =
    ShallowCopy NDArrayHandle NDArrayHandle
  | GetContext NDArrayHandle int int
  | ToDLPack NDArrayHandle DLManagedTensorHandle
  | SetStream int int addr
  | CallPacked "TVMValue list" "int list"
  | Deleter DLManagedTensorHandle
  | PushSync Context "NDArrayHandle list" "NDArrayHandle list"
  | StdOut string

text \<open>
  The machine state that callbacks see: the state \<open>ext\<close> of everything outside the bridge
  (host framework, engine, device memory) and the two \<^verbatim>\<open>thread_local\<close> variables.
  The world adds the trace, which only the bridge's own steps extend.
\<close>

record 'w machine =
  ext :: 'w
  DEV_ID :: int
  STRM :: addr

record 'w world =
  mach :: "'w machine"
  trace :: "event list"

text \<open>
  The host primitives installed by \<^verbatim>\<open>RegisterMXAPI\<close> that \<^verbatim>\<open>Init\<close>, \<^verbatim>\<open>Run\<close> and the
  wrapper call (their \<^verbatim>\<open>int\<close> status is never read by the bridge, so the model returns the
  out-parameters only; \<^verbatim>\<open>MXNDArrayFree\<close> is called by the destructor alone), and three
  further things the code obtains from outside: the \<^verbatim>\<open>deleter\<close> stored in a managed
  tensor, the pointer-sized load \<^verbatim>\<open>reinterpret_cast<void**>(rctx.stream)[0]\<close>, and the
  indeterminate contents of the member \<^verbatim>\<open>ctx_\<close>, which the constructor does not
  initialise.
\<close>

record 'w host =
  MXShallowCopyNDArray :: "NDArrayHandle \<Rightarrow> 'w \<Rightarrow> NDArrayHandle \<times> 'w"
  MXNDArrayGetContext :: "NDArrayHandle \<Rightarrow> 'w \<Rightarrow> (int \<times> int) \<times> 'w"
  MXNDArrayToDLPack :: "NDArrayHandle \<Rightarrow> 'w \<Rightarrow> DLManagedTensorHandle \<times> 'w"
  MXEnginePushSyncND :: "Context \<Rightarrow> NDArrayHandle list \<Rightarrow> NDArrayHandle list \<Rightarrow> 'w \<Rightarrow> 'w"
  dlm_deleter :: "DLManagedTensorHandle \<Rightarrow> 'w \<Rightarrow> 'w"
  load_ptr :: "addr \<Rightarrow> 'w \<Rightarrow> addr"
  uninitialised_ctx :: "'w \<Rightarrow> Context"

text \<open>
  A user function is called through \<^verbatim>\<open>CallPacked(args, &rv)\<close> with the functor's two
  buffers. It is a \<^verbatim>\<open>std::function\<close>: it either returns or leaves by an exception, in both
  cases with the machine state it has reached. The stream setter is called with three
  arguments; \<^verbatim>\<open>set_stream\<close> reads back the second as \<^verbatim>\<open>args.values[1].v_int64\<close> and the
  third as \<^verbatim>\<open>args.values[2].v_handle\<close>.
\<close>

datatype 'm call_result =
    Returned 'm
  | Threw 'm

type_synonym 'w PackedFunc =
  "TVMValue list \<Rightarrow> int list \<Rightarrow> 'w machine \<Rightarrow> 'w machine call_result"
type_synonym 'w StreamSetter = "int \<Rightarrow> int \<Rightarrow> addr \<Rightarrow> 'w machine \<Rightarrow> 'w machine"

definition set_stream :: "'w StreamSetter" where
  "set_stream dev_type' dev_id' strm m = m\<lparr>DEV_ID := dev_id', STRM := strm\<rparr>"

text \<open>
  How a call into the bridge can end, apart from returning: \<^verbatim>\<open>exit\<close>, a failed \<^verbatim>\<open>CHECK\<close>, an
  access outside a vector, and an exception of the user function, which \<^verbatim>\<open>Run\<close> does not
  catch.
\<close>

datatype fatal =
    Exit int
  | CheckFailed string
  | OutOfBounds
  | Thrown

definition emit :: "event \<Rightarrow> 'w world \<Rightarrow> 'w world" where
  "emit e w = w\<lparr>trace := trace w @ [e]\<rparr>"

definition on_ext :: "('w \<Rightarrow> 'w) \<Rightarrow> 'w world \<Rightarrow> 'w world" where
  "on_ext f w = w\<lparr>mach := (mach w)\<lparr>ext := f (ext (mach w))\<rparr>\<rparr>"

definition call_MXShallowCopyNDArray ::
  "'w host \<Rightarrow> NDArrayHandle \<Rightarrow> 'w world \<Rightarrow> NDArrayHandle \<times> 'w world" where
  "call_MXShallowCopyNDArray H src w =
     (let (out, e) = MXShallowCopyNDArray H src (ext (mach w))
      in (out, emit (ShallowCopy src out) (on_ext (\<lambda>_. e) w)))"

definition call_MXNDArrayGetContext ::
  "'w host \<Rightarrow> NDArrayHandle \<Rightarrow> 'w world \<Rightarrow> (int \<times> int) \<times> 'w world" where
  "call_MXNDArrayGetContext H nd w =
     (let ((t, d), e) = MXNDArrayGetContext H nd (ext (mach w))
      in ((t, d), emit (GetContext nd t d) (on_ext (\<lambda>_. e) w)))"

definition call_MXNDArrayToDLPack ::
  "'w host \<Rightarrow> NDArrayHandle \<Rightarrow> 'w world \<Rightarrow> DLManagedTensorHandle \<times> 'w world" where
  "call_MXNDArrayToDLPack H nd w =
     (let (dlm, e) = MXNDArrayToDLPack H nd (ext (mach w))
      in (dlm, emit (ToDLPack nd dlm) (on_ext (\<lambda>_. e) w)))"

definition call_MXEnginePushSyncND ::
  "'w host \<Rightarrow> Context \<Rightarrow> NDArrayHandle list \<Rightarrow> NDArrayHandle list \<Rightarrow> 'w world \<Rightarrow> 'w world" where
  "call_MXEnginePushSyncND H c const_nds mutate_nds w =
     emit (PushSync c const_nds mutate_nds) (on_ext (MXEnginePushSyncND H c const_nds mutate_nds) w)"

definition call_deleter :: "'w host \<Rightarrow> 'w world \<Rightarrow> DLManagedTensorHandle \<Rightarrow> 'w world" where
  "call_deleter H w dlm = emit (Deleter dlm) (on_ext (dlm_deleter H dlm) w)"

definition call_fset_stream :: "'w StreamSetter \<Rightarrow> int \<Rightarrow> int \<Rightarrow> addr \<Rightarrow> 'w world \<Rightarrow> 'w world" where
  "call_fset_stream fs t d strm w = emit (SetStream t d strm) (w\<lparr>mach := fs t d strm (mach w)\<rparr>)"

definition CallPacked_func ::
  "'w PackedFunc \<Rightarrow> TVMValue list \<Rightarrow> int list \<Rightarrow> 'w world \<Rightarrow> 'w world call_result" where
  "CallPacked_func f vs cs w =
     (case f vs cs (mach w) of
        Returned m \<Rightarrow> Returned (emit (CallPacked vs cs) (w\<lparr>mach := m\<rparr>))
      | Threw m \<Rightarrow> Threw (emit (CallPacked vs cs) (w\<lparr>mach := m\<rparr>)))"

section \<open>The invocation functor\<close>

text \<open>
  The members of \<^verbatim>\<open>class TVMFunctor\<close>. Isabelle does not accept a name that ends in an
  underscore, so the member \<^verbatim>\<open>values_\<close> is the field \<open>values_f\<close>, and so on.
\<close>

record 'w TVMFunctor =
  func_f :: "'w PackedFunc"
  fset_stream_f :: "'w StreamSetter"
  values_f :: "TVMValue list"
  type_codes_f :: "int list"
  array_handle_f :: "NDArrayHandle list"
  array_loc_f :: "nat list"
  ctx_f :: Context

text \<open>
  The constructor initialises \<^verbatim>\<open>func_\<close> and \<^verbatim>\<open>fset_stream_\<close>; the four vectors start
  empty and \<^verbatim>\<open>ctx_\<close> holds whatever the memory held.
\<close>

definition TVMFunctor_new :: "'w PackedFunc \<Rightarrow> 'w StreamSetter \<Rightarrow> Context \<Rightarrow> 'w TVMFunctor" where
  "TVMFunctor_new func fset_stream garbage =
     \<lparr>func_f = func, fset_stream_f = fset_stream, values_f = [], type_codes_f = [],
      array_handle_f = [], array_loc_f = [], ctx_f = garbage\<rparr>"

text \<open>Decimal output of an \<^verbatim>\<open>int\<close> by \<^verbatim>\<open>operator<<\<close>.\<close>

fun show_digit :: "nat \<Rightarrow> char" where
  "show_digit n = char_of (48 + n)"

function show_nat :: "nat \<Rightarrow> string" where
  "show_nat n = (if n < 10 then [show_digit n] else show_nat (n div 10) @ [show_digit (n mod 10)])"
  by pat_completeness auto
termination
  by (relation "measure id") auto

definition show_int :: "int \<Rightarrow> string" where
  "show_int i = (if i < 0 then CHR ''-'' # show_nat (nat (- i)) else show_nat (nat i))"

definition inconsistent_context_msg :: "Context \<Rightarrow> int \<Rightarrow> int \<Rightarrow> string" where
  "inconsistent_context_msg c dev_type' dev_id' =
     ''Inconsistent context: source('' @ show_int (Context.dev_type c) @ '':'' @ show_int (Context.dev_id c)
       @ '') vs target: ('' @ show_int dev_type' @ '':'' @ show_int dev_id' @ '')''"

text \<open>
  The loop of \<^verbatim>\<open>Init\<close> (lines 89-120). Its state is the functor, the cursor
  \<^verbatim>\<open>const_loc_ptr\<close> and the two output vectors. \<^verbatim>\<open>exit(-1)\<close> and a failed \<^verbatim>\<open>CHECK_LT\<close>
  end the loop with the world as it is at that point. \<^verbatim>\<open>Context::DeviceType(dev_type)\<close>
  keeps the integer.
\<close>

function Init_loop ::
  "tvm_abi \<Rightarrow> 'w host \<Rightarrow> TVMArgs \<Rightarrow> int list \<Rightarrow> nat \<Rightarrow>
   'w TVMFunctor \<times> nat \<times> NDArrayHandle list \<times> NDArrayHandle list \<Rightarrow> 'w world \<Rightarrow>
   (fatal + 'w TVMFunctor \<times> NDArrayHandle list \<times> NDArrayHandle list) \<times> 'w world" where
  "Init_loop K H args const_loc i (self, const_loc_ptr, const_nds, mutate_nds) w =
     (if i < num_args args then
        if type_codes args ! i = kTVMNDArrayTypeCode K then
          (let nd_handle = values args ! i;
               (nd, w1) = call_MXShallowCopyNDArray H nd_handle w;
               self1 = self\<lparr>type_codes_f := (type_codes_f self)[i := kArrayHandle K],
                            array_handle_f := array_handle_f self @ [nd]\<rparr>;
               ((dev_type', dev_id'), w2) = call_MXNDArrayGetContext H nd w1
           in if Context.dev_id (ctx_f self1) \<noteq> - 1 \<and>
                 (dev_type' \<noteq> Context.dev_type (ctx_f self1) \<or> dev_id' \<noteq> Context.dev_id (ctx_f self1))
              then (Inl (Exit (- 1)),
                    emit (StdOut (inconsistent_context_msg (ctx_f self1) dev_type' dev_id')) w2)
              else
                (let self2 = self1\<lparr>ctx_f := \<lparr>dev_type = dev_type', dev_id = dev_id'\<rparr>,
                                   array_loc_f := array_loc_f self1 @ [i]\<rparr>
                 in if const_loc_ptr < length const_loc \<and> int i = const_loc ! const_loc_ptr
                    then Init_loop K H args const_loc (Suc i)
                           (self2, Suc const_loc_ptr, const_nds @ [nd], mutate_nds) w2
                    else Init_loop K H args const_loc (Suc i)
                           (self2, const_loc_ptr, const_nds, mutate_nds @ [nd]) w2))
        else if type_codes args ! i < kTVMType K
          then Init_loop K H args const_loc (Suc i) (self, const_loc_ptr, const_nds, mutate_nds) w
          else (Inl (CheckFailed ''Only allow POD type in mxnet async call''), w)
      else (Inr (self, const_nds, mutate_nds), w))"
  by pat_completeness auto
termination
  by (relation "measure (\<lambda>(K, H, args, const_loc, i, st, w). num_args args - i)") auto

text \<open>
  \<^verbatim>\<open>Init\<close>. Copying \<^verbatim>\<open>args.size()\<close> entries out of each array reads past the end when
  an array is shorter; the model reports that as \<open>OutOfBounds\<close> instead of going on.
\<close>

definition Init ::
  "tvm_abi \<Rightarrow> 'w host \<Rightarrow> 'w TVMFunctor \<Rightarrow> TVMArgs \<Rightarrow> int list \<Rightarrow>
   NDArrayHandle list \<Rightarrow> NDArrayHandle list \<Rightarrow> 'w world \<Rightarrow>
   (fatal + 'w TVMFunctor \<times> NDArrayHandle list \<times> NDArrayHandle list) \<times> 'w world" where
  "Init K H self args const_loc const_nds mutate_nds w =
     (if length (values args) < num_args args \<or> length (type_codes args) < num_args args
      then (Inl OutOfBounds, w)
      else
        (let self1 = self\<lparr>values_f := take (num_args args) (values args),
                          type_codes_f := take (num_args args) (type_codes args)\<rparr>;
             const_loc_ptr = 0;
             self2 = self1\<lparr>ctx_f := (ctx_f self1)\<lparr>dev_id := - 1\<rparr>\<rparr>
         in Init_loop K H args const_loc 0 (self2, const_loc_ptr, const_nds, mutate_nds) w))"

text \<open>
  The first loop of \<^verbatim>\<open>Run\<close> (lines 126-130): one managed tensor per stored handle, its
  \<^verbatim>\<open>dl_tensor\<close> address written into the value slot. Indexing \<^verbatim>\<open>array_handle_\<close> or
  \<^verbatim>\<open>values_\<close> outside the vector is reported as \<open>OutOfBounds\<close>.
\<close>

function Run_setup ::
  "tvm_abi \<Rightarrow> 'w host \<Rightarrow> nat \<Rightarrow> 'w TVMFunctor \<times> DLManagedTensorHandle list \<Rightarrow> 'w world \<Rightarrow>
   (fatal + 'w TVMFunctor \<times> DLManagedTensorHandle list) \<times> 'w world" where
  "Run_setup K H i (self, dlms) w =
     (if i < length (array_loc_f self) then
        if i < length (array_handle_f self) then
          (let (dlm, w1) = call_MXNDArrayToDLPack H (array_handle_f self ! i) w;
               dlms1 = dlms[i := dlm]
           in if array_loc_f self ! i < length (values_f self)
              then Run_setup K H (Suc i)
                     (self\<lparr>values_f := (values_f self)[array_loc_f self ! i := dlm + dl_tensor_offset K]\<rparr>,
                      dlms1) w1
              else (Inl OutOfBounds, w1))
        else (Inl OutOfBounds, w)
      else (Inr (self, dlms), w))"
  by pat_completeness auto
termination
  by (relation "measure (\<lambda>(K, H, i, st, w). length (array_loc_f (fst st)) - i)") auto

text \<open>
  \<^verbatim>\<open>Run\<close> (lines 123-147). The null pointer is the address \<open>0\<close>. There is no
  \<^verbatim>\<open>try\<close> around the call of the user function: when it throws, \<^verbatim>\<open>Run\<close> is left at once,
  without the second call of the stream setter and without the deleters.
\<close>

definition Run ::
  "tvm_abi \<Rightarrow> 'w host \<Rightarrow> 'w TVMFunctor \<Rightarrow> RunContext \<Rightarrow> 'w world \<Rightarrow>
   (fatal + 'w TVMFunctor) \<times> 'w world" where
  "Run K H self rctx w =
     (case Run_setup K H 0 (self, replicate (length (array_loc_f self)) 0) w of
        (Inl e, w1) \<Rightarrow> (Inl e, w1)
      | (Inr (self1, dlms), w1) \<Rightarrow>
          (case
             (if Context.dev_type (ctx_f self1) = kGPU then
                (let strm = load_ptr H (stream rctx) (ext (mach w1));
                     dev_type' = kDLGPU K;
                     wa = call_fset_stream (fset_stream_f self1) dev_type'
                            (Context.dev_id (RunContext.ctx rctx)) strm w1
                 in case CallPacked_func (func_f self1) (values_f self1) (type_codes_f self1) wa of
                      Returned wb \<Rightarrow>
                        Returned (call_fset_stream (fset_stream_f self1) dev_type'
                                   (Context.dev_id (RunContext.ctx rctx)) 0 wb)
                    | Threw wb \<Rightarrow> Threw wb)
              else CallPacked_func (func_f self1) (values_f self1) (type_codes_f self1) w1)
           of
             Returned w2 \<Rightarrow> (Inr self1, foldl (call_deleter H) w2 dlms)
           | Threw w2 \<Rightarrow> (Inl Thrown, w2)))"

section \<open>The async wrapper and the registry\<close>

record 'w SyncFuncParams =
  ctx :: Context
  func :: "'w TVMFunctor"

text \<open>
  The closure \<^verbatim>\<open>wrapped\<close> built by \<^verbatim>\<open>WrapAsyncCall\<close> (lines 220-238), with its captures
  \<^verbatim>\<open>f\<close>, \<^verbatim>\<open>fset_stream\<close> and \<^verbatim>\<open>const_loc\<close> as arguments. The parameter block handed to the
  engine is returned beside the world; a fatal end inside \<^verbatim>\<open>Init\<close> ends the call.
\<close>

type_synonym 'w AsyncFunc = "TVMArgs \<Rightarrow> 'w world \<Rightarrow> (fatal + 'w SyncFuncParams) \<times> 'w world"

definition wrapped ::
  "tvm_abi \<Rightarrow> 'w host \<Rightarrow> 'w PackedFunc \<Rightarrow> 'w StreamSetter \<Rightarrow> int list \<Rightarrow> 'w AsyncFunc" where
  "wrapped K H f fset_stream const_loc args w =
     (let func = TVMFunctor_new f fset_stream (uninitialised_ctx H (ext (mach w)))
      in case Init K H func args const_loc [] [] w of
           (Inl e, w1) \<Rightarrow> (Inl e, w1)
         | (Inr (func1, const_nds, mutate_nds), w1) \<Rightarrow>
             (let (const_nds1, mutate_nds1) = DeduplicateNDArrayHandle const_nds mutate_nds;
                  ps = \<lparr>ctx = ctx_f func1, func = func1\<rparr>
              in (Inr ps,
                  call_MXEnginePushSyncND H (SyncFuncParams.ctx ps) const_nds1 mutate_nds1 w1)))"








section \<open>Notions used in the statements\<close>

text \<open>
  The test of lines 98-99 of \<^verbatim>\<open>Init\<close>, the four member updates that \<^verbatim>\<open>Init\<close> makes for a
  tensor slot, and the test of line 110, under names of their own.
\<close>

definition ctx_mismatch :: "Context \<Rightarrow> int \<Rightarrow> int \<Rightarrow> bool" where
  "ctx_mismatch c t d \<longleftrightarrow>
     Context.dev_id c \<noteq> - 1 \<and> (t \<noteq> Context.dev_type c \<or> d \<noteq> Context.dev_id c)"

definition tensor_step ::
  "tvm_abi \<Rightarrow> nat \<Rightarrow> NDArrayHandle \<Rightarrow> int \<Rightarrow> int \<Rightarrow> 'w TVMFunctor \<Rightarrow> 'w TVMFunctor" where
  "tensor_step K i nd t d self =
     self\<lparr>type_codes_f := (type_codes_f self)[i := kArrayHandle K],
          array_handle_f := array_handle_f self @ [nd],
          ctx_f := \<lparr>dev_type = t, dev_id = d\<rparr>,
          array_loc_f := array_loc_f self @ [i]\<rparr>"

definition cursor_hit :: "int list \<Rightarrow> nat \<Rightarrow> nat \<Rightarrow> bool" where
  "cursor_hit const_loc c i \<longleftrightarrow> c < length const_loc \<and> int i = const_loc ! c"

text \<open>
  Well-formed arguments: both arrays hold \<^verbatim>\<open>args.size()\<close> entries. A tensor slot is a slot whose
  type code is the framework-tensor code.
\<close>

definition wf_args :: "TVMArgs \<Rightarrow> bool" where
  "wf_args args \<longleftrightarrow>
     num_args args \<le> length (values args) \<and> num_args args \<le> length (type_codes args)"

definition tensor_slots :: "tvm_abi \<Rightarrow> TVMArgs \<Rightarrow> nat list" where
  "tensor_slots K args =
     filter (\<lambda>p. type_codes args ! p = kTVMNDArrayTypeCode K) [0..<num_args args]"

text \<open>The events that a step adds to the trace, and the device contexts reported in them.\<close>

definition new_events :: "'w world \<Rightarrow> 'w world \<Rightarrow> event list" where
  "new_events w w' = drop (length (trace w)) (trace w')"

fun reported :: "event list \<Rightarrow> (int \<times> int) list" where
  "reported [] = []"
| "reported (GetContext nd t d # es) = (t, d) # reported es"
| "reported (e # es) = reported es"

fun is_PushSync :: "event \<Rightarrow> bool" where
  "is_PushSync (PushSync c rs ws) = True"
| "is_PushSync e = False"

fun is_ShallowCopy :: "event \<Rightarrow> bool" where
  "is_ShallowCopy (ShallowCopy src out) = True"
| "is_ShallowCopy e = False"

fun is_SetStream :: "event \<Rightarrow> bool" where
  "is_SetStream (SetStream t d s) = True"
| "is_SetStream e = False"

fun is_CallPacked :: "event \<Rightarrow> bool" where
  "is_CallPacked (CallPacked vs cs) = True"
| "is_CallPacked e = False"

text \<open>Where the cursor \<^verbatim>\<open>const_loc_ptr\<close> stands when \<^verbatim>\<open>Init\<close> reaches slot \<open>i\<close>: behind the
  const positions below \<open>i\<close>, before the others.\<close>

definition cursor_at :: "int list \<Rightarrow> nat \<Rightarrow> nat \<Rightarrow> bool" where
  "cursor_at cl c i \<longleftrightarrow>
     c \<le> length cl \<and> (\<forall>k<c. cl ! k < int i) \<and> (\<forall>k. c \<le> k \<and> k < length cl \<longrightarrow> int i \<le> cl ! k)"

text \<open>
  The state in which \<open>Init\<close> leaves a functor, as far as \<open>Run\<close> depends on it: one stored
  handle per recorded position, and every recorded position inside the value buffer.
\<close>

definition functor_wf :: "'w TVMFunctor \<Rightarrow> bool" where
  "functor_wf self \<longleftrightarrow>
     length (array_handle_f self) = length (array_loc_f self) \<and>
     list_all (\<lambda>p. p < length (values_f self)) (array_loc_f self)"

text \<open>
  The device contexts that the tensor arguments of a call report: what the host answers
  when each tensor, in slot order, is copied and the copy is asked for its context,
  starting from the host state \<open>e\<close>. This asks every tensor, whether or not \<open>Init\<close> gets
  that far.
\<close>

fun probe :: "'w host \<Rightarrow> NDArrayHandle list \<Rightarrow> 'w \<Rightarrow> (int \<times> int) list" where
  "probe H [] e = []"
| "probe H (h # hs) e =
     (let (nd, e1) = MXShallowCopyNDArray H h e;
          (c, e2) = MXNDArrayGetContext H nd e1
      in c # probe H hs e2)"

definition reported_contexts :: "tvm_abi \<Rightarrow> 'w host \<Rightarrow> TVMArgs \<Rightarrow> 'w \<Rightarrow> (int \<times> int) list" where
  "reported_contexts K H args e = probe H (map (\<lambda>p. values args ! p) (tensor_slots K args)) e"

text \<open>
  The test of lines 98-99 on two contexts given as pairs: the later one differs from the
  earlier one, and the earlier one's device id is not \<open>-1\<close>.
\<close>

definition clash :: "int \<times> int \<Rightarrow> int \<times> int \<Rightarrow> bool" where
  "clash c c' \<longleftrightarrow> snd c \<noteq> - 1 \<and> c' \<noteq> c"

text \<open>A slot that passes \<open>Init\<close>: a tensor, or a type code below the sentinel.\<close>

definition slot_ok :: "tvm_abi \<Rightarrow> TVMArgs \<Rightarrow> nat \<Rightarrow> bool" where
  "slot_ok K args i \<longleftrightarrow>
     type_codes args ! i = kTVMNDArrayTypeCode K \<or> type_codes args ! i < kTVMType K"

text \<open>
  The managed tensors that the host produces for a list of handles, asked in order from the
  host state \<open>e\<close>, with the host state after the last call; the value buffer after their
  \<^verbatim>\<open>dl_tensor\<close> addresses have been written to the recorded positions; and the machine
  state after the deleters of a list of managed tensors have run in order.
\<close>

fun to_dlpack_all ::
  "'w host \<Rightarrow> NDArrayHandle list \<Rightarrow> 'w \<Rightarrow> DLManagedTensorHandle list \<times> 'w" where
  "to_dlpack_all H [] e = ([], e)"
| "to_dlpack_all H (h # hs) e =
     (let (dlm, e1) = MXNDArrayToDLPack H h e;
          (dlms, e2) = to_dlpack_all H hs e1
      in (dlm # dlms, e2))"

definition bind_values ::
  "tvm_abi \<Rightarrow> TVMValue list \<Rightarrow> nat list \<Rightarrow> DLManagedTensorHandle list \<Rightarrow> TVMValue list" where
  "bind_values K vs locs dlms =
     foldl (\<lambda>vs (p, dlm). vs[p := dlm + dl_tensor_offset K]) vs (zip locs dlms)"

definition run_deleters :: "'w host \<Rightarrow> DLManagedTensorHandle list \<Rightarrow> 'w machine \<Rightarrow> 'w machine" where
  "run_deleters H dlms m = foldl (\<lambda>m dlm. m\<lparr>ext := dlm_deleter H dlm (ext m)\<rparr>) m dlms"

fun is_Deleter :: "event \<Rightarrow> bool" where
  "is_Deleter (Deleter dlm) = True"
| "is_Deleter e = False"

section \<open>Concrete inputs\<close>

text \<open>
  A small host used to run the definitions: its state counts the calls made so far; a
  shallow copy of the handle \<open>h\<close> is the handle \<open>h + 0x1000\<close>; the device of a tensor is
  read off its handle (GPU 1 for the copy of \<open>0x12\<close>, the pinned-CPU context with device id
  \<open>-1\<close> for the copy of \<open>0x13\<close>, GPU 0 otherwise); the managed tensor of a handle \<open>h\<close> is at
  \<open>h + 0x20000\<close>; every pointer-sized load yields \<open>0x5555\<close>.
\<close>

definition ex_host :: "nat host" where
  "ex_host =
     \<lparr>MXShallowCopyNDArray = (\<lambda>src n. (src + 0x1000, Suc n)),
      MXNDArrayGetContext = (\<lambda>nd n. (if nd = 0x1012 then (2, 1) else if nd = 0x1013 then (3, - 1) else (2, 0), Suc n)),
      MXNDArrayToDLPack = (\<lambda>nd n. (nd + 0x20000, Suc n)),
      MXEnginePushSyncND = (\<lambda>c rs ws n. Suc n),
      dlm_deleter = (\<lambda>dlm n. Suc n),
      load_ptr = (\<lambda>a n. 0x5555),
      uninitialised_ctx = (\<lambda>n. \<lparr>dev_type = 0, dev_id = 0\<rparr>)\<rparr>"

text \<open>The type codes of TVM's runtime and DLPack's layout, as one choice of the parameters.\<close>

definition ex_abi :: tvm_abi where
  "ex_abi = \<lparr>kTVMNDArrayTypeCode = 19, kArrayHandle = 7, kTVMType = 5, kDLGPU = 2,
             dl_tensor_offset = 0\<rparr>"

definition ex_world :: "nat world" where
  "ex_world = \<lparr>mach = \<lparr>ext = 0, DEV_ID = 0, STRM = 0\<rparr>, trace = []\<rparr>"

definition ex_func :: "nat PackedFunc" where
  "ex_func vs cs m = Returned (m\<lparr>ext := Suc (ext m)\<rparr>)"

text \<open>
  Argument buffers: three tensors; a tensor, an \<^verbatim>\<open>int64\<close> and a \<^verbatim>\<open>float\<close> (TVM's codes \<open>0\<close>
  and \<open>2\<close>); a tensor, a slot whose code \<open>9\<close> is not below the sentinel, and a tensor.
\<close>

definition ex_args_tensors :: TVMArgs where
  "ex_args_tensors = \<lparr>values = [0x10, 0x11, 0x14], type_codes = [19, 19, 19], num_args = 3\<rparr>"

definition ex_args_pod :: TVMArgs where
  "ex_args_pod = \<lparr>values = [0x10, 5, 0x4048F5C3], type_codes = [19, 0, 2], num_args = 3\<rparr>"

definition ex_args_bad :: TVMArgs where
  "ex_args_bad = \<lparr>values = [0x10, 7, 0x11], type_codes = [19, 9, 19], num_args = 3\<rparr>"

definition ex_functor :: "nat TVMFunctor" where
  "ex_functor = TVMFunctor_new ex_func set_stream \<lparr>dev_type = 0, dev_id = 0\<rparr>"

text \<open>
  Two tensors on GPU 0 and GPU 1, and two tensors of which the first reports the device id
  \<open>-1\<close>.
\<close>

definition ex_args_two_gpus :: TVMArgs where
  "ex_args_two_gpus = \<lparr>values = [0x10, 0x12], type_codes = [19, 19], num_args = 2\<rparr>"

definition ex_args_minus_one :: TVMArgs where
  "ex_args_minus_one = \<lparr>values = [0x13, 0x12], type_codes = [19, 19], num_args = 2\<rparr>"

text \<open>
  A functor as \<open>Init\<close> leaves it for a tensor, an integer and a tensor on GPU 0, the same
  functor with a CPU context, and a run context whose stream variable is at \<open>0x7000\<close>.
\<close>

definition ex_functor_gpu :: "nat TVMFunctor" where
  "ex_functor_gpu =
     \<lparr>func_f = ex_func, fset_stream_f = set_stream, values_f = [0x10, 5, 0x11],
      type_codes_f = [7, 0, 7], array_handle_f = [0x1010, 0x1011], array_loc_f = [0, 2],
      ctx_f = \<lparr>dev_type = 2, dev_id = 0\<rparr>\<rparr>"

definition ex_functor_cpu :: "nat TVMFunctor" where
  "ex_functor_cpu = ex_functor_gpu\<lparr>ctx_f := \<lparr>dev_type = 1, dev_id = 0\<rparr>\<rparr>"

definition ex_rctx :: RunContext where
  "ex_rctx = \<lparr>RunContext.ctx = \<lparr>dev_type = 2, dev_id = 0\<rparr>, stream = 0x7000\<rparr>"




text \<open>A tensor on GPU 0, a slot whose code \<open>9\<close> is not below the sentinel, and a tensor on GPU 1.\<close>

definition ex_args_gpus_bad :: TVMArgs where
  "ex_args_gpus_bad = \<lparr>values = [0x10, 7, 0x12], type_codes = [19, 9, 19], num_args = 3\<rparr>"

text \<open>
  A run context on GPU 1, a user function that leaves by an exception, and the GPU functor
  with that user function.
\<close>

definition ex_rctx_gpu1 :: RunContext where
  "ex_rctx_gpu1 = \<lparr>RunContext.ctx = \<lparr>dev_type = 2, dev_id = 1\<rparr>, stream = 0x7000\<rparr>"

definition ex_func_throw :: "nat PackedFunc" where
  "ex_func_throw vs cs m = Threw (m\<lparr>ext := Suc (ext m)\<rparr>)"

definition ex_functor_throw :: "nat TVMFunctor" where
  "ex_functor_throw = ex_functor_gpu\<lparr>func_f := ex_func_throw\<rparr>"

section \<open>The deriver computes a set difference\<close>

declare advance_wit.simps [simp del] strip_written.simps [simp del]

lemma advance_wit_takeWhile:
  "advance_wit ws r wit = wit + length (takeWhile (\<lambda>w. w < r) (drop wit ws))"
proof (induction ws r wit rule: advance_wit.induct)
  case (1 ws r wit)
  show ?case
  proof (cases "wit < length ws \<and> ws ! wit < r")
    case True
    then have "drop wit ws = ws ! wit # drop (Suc wit) ws"
      by (simp add: Cons_nth_drop_Suc)
    with True "1.IH" show ?thesis
      by (subst advance_wit.simps) simp
  next
    case False
    then have "takeWhile (\<lambda>w. w < r) (drop wit ws) = []"
      by (cases "wit < length ws") (simp_all add: takeWhile_eq_Nil_iff hd_drop_conv_nth)
    with False show ?thesis
      by (subst advance_wit.simps) auto
  qed
qed

lemma advance_wit_ge: "wit \<le> advance_wit ws r wit"
  by (simp add: advance_wit_takeWhile)

lemma advance_wit_le: "wit \<le> length ws \<Longrightarrow> advance_wit ws r wit \<le> length ws"
proof -
  assume a: "wit \<le> length ws"
  have "length (takeWhile (\<lambda>w. w < r) (drop wit ws)) \<le> length (drop wit ws)"
    by (rule length_takeWhile_le)
  with a show ?thesis by (simp add: advance_wit_takeWhile)
qed

lemma advance_wit_skipped:
  assumes "wit \<le> j" "j < advance_wit ws r wit"
  shows "ws ! j < r"
proof -
  let ?tw = "takeWhile (\<lambda>w. w < r) (drop wit ws)"
  from assms have lt: "j - wit < length ?tw"
    by (simp add: advance_wit_takeWhile)
  then have "?tw ! (j - wit) \<in> set ?tw" by (rule nth_mem)
  then have "?tw ! (j - wit) < r" by (auto dest: set_takeWhileD)
  moreover from lt have "?tw ! (j - wit) = drop wit ws ! (j - wit)"
    by (rule takeWhile_nth)
  moreover have "j - wit < length (drop wit ws)"
    using lt length_takeWhile_le [of "\<lambda>w. w < r" "drop wit ws"] by linarith
  then have "drop wit ws ! (j - wit) = ws ! j"
    using assms(1) by simp
  ultimately show ?thesis by simp
qed

lemma advance_wit_stop:
  assumes "advance_wit ws r wit < length ws"
  shows "\<not> ws ! advance_wit ws r wit < r"
proof -
  let ?P = "\<lambda>w. w < r"
  let ?n = "length (takeWhile ?P (drop wit ws))"
  from assms have "?n < length (drop wit ws)"
    by (simp add: advance_wit_takeWhile)
  then have "\<not> ?P (drop wit ws ! ?n)"
    by (rule nth_length_takeWhile)
  moreover from assms have "drop wit ws ! ?n = ws ! (wit + ?n)"
    by (simp add: advance_wit_takeWhile)
  ultimately show ?thesis by (simp add: advance_wit_takeWhile)
qed

text \<open>Whether the merge keeps a read handle is membership in the write list.\<close>

lemma kept_iff_not_written:
  assumes srt: "sorted ws" and le: "wit \<le> length ws"
    and below: "\<forall>j<wit. ws ! j < r"
  shows "(advance_wit ws r wit = length ws \<or> ws ! advance_wit ws r wit \<noteq> r)
           \<longleftrightarrow> r \<notin> set ws"
proof -
  let ?k = "advance_wit ws r wit"
  have k_le: "?k \<le> length ws" using le by (rule advance_wit_le)
  have lower: "ws ! j < r" if "j < ?k" for j
    using that below advance_wit_skipped [of wit j ws r] by (cases "j < wit") auto
  show ?thesis
  proof (cases "?k = length ws")
    case True
    have "r \<notin> set ws"
    proof
      assume "r \<in> set ws"
      then obtain j where "j < length ws" "ws ! j = r" by (auto simp: in_set_conv_nth)
      with lower [of j] True show False by simp
    qed
    with True show ?thesis by simp
  next
    case False
    with k_le have k_lt: "?k < length ws" by simp
    then have ge: "r \<le> ws ! ?k" using advance_wit_stop [of ws r wit] by simp
    show ?thesis
    proof (cases "ws ! ?k = r")
      case True
      with k_lt have "r \<in> set ws" by (auto simp: in_set_conv_nth)
      with True False show ?thesis by simp
    next
      case neq: False
      with ge have gt: "r < ws ! ?k" by simp
      have "r \<notin> set ws"
      proof
        assume "r \<in> set ws"
        then obtain j where j: "j < length ws" "ws ! j = r" by (auto simp: in_set_conv_nth)
        show False
        proof (cases "j < ?k")
          case True
          with lower [of j] j show False by simp
        next
          case False
          then have "?k \<le> j" by simp
          with srt j(1) have "ws ! ?k \<le> ws ! j" by (simp add: sorted_nth_mono)
          with gt j(2) show False by simp
        qed
      qed
      with neq show ?thesis by simp
    qed
  qed
qed

lemma strip_written_filter:
  assumes "sorted ws" "sorted (drop rit rs)" "rtop \<le> rit" "wit \<le> length ws"
    and "\<forall>j<wit. \<forall>i. rit \<le> i \<and> i < length rs \<longrightarrow> ws ! j < rs ! i"
  shows "strip_written rs ws rit wit rtop =
           take rtop rs @ filter (\<lambda>r. r \<notin> set ws) (drop rit rs)"
  using assms
proof (induction rs ws rit wit rtop rule: strip_written.induct)
  case (1 rs ws rit wit rtop)
  show ?case
  proof (cases "rit < length rs")
    case False
    then show ?thesis by (subst strip_written.simps) simp
  next
    case True
    define r where "r = rs ! rit"
    define k where "k = advance_wit ws r wit"
    from True have dr: "drop rit rs = r # drop (Suc rit) rs"
      by (simp add: Cons_nth_drop_Suc r_def)
    from "1.prems"(2) dr have srt': "sorted (drop (Suc rit) rs)"
      and r_least: "\<forall>x \<in> set (drop (Suc rit) rs). r \<le> x" by simp_all
    have later: "r \<le> rs ! i" if "Suc rit \<le> i" "i < length rs" for i
    proof -
      from that have "rs ! i = drop (Suc rit) rs ! (i - Suc rit)" by simp
      moreover from that have "i - Suc rit < length (drop (Suc rit) rs)" by simp
      ultimately show ?thesis using r_least by (metis nth_mem)
    qed
    have below: "\<forall>j<wit. ws ! j < r"
      using "1.prems"(5) True by (auto simp: r_def)
    have k_le: "k \<le> length ws" unfolding k_def using "1.prems"(4) by (rule advance_wit_le)
    have kept: "(k = length ws \<or> ws ! k \<noteq> r) \<longleftrightarrow> r \<notin> set ws"
      unfolding k_def using "1.prems"(1,4) below by (rule kept_iff_not_written)
    have inv: "\<forall>j<k. \<forall>i. Suc rit \<le> i \<and> i < length rs \<longrightarrow> ws ! j < rs ! i"
    proof (intro allI impI)
      fix j i assume j: "j < k" and i: "Suc rit \<le> i \<and> i < length rs"
      have "ws ! j < r"
      proof (cases "j < wit")
        case True with below show ?thesis by simp
      next
        case False
        with j show ?thesis using advance_wit_skipped [of wit j ws r] by (simp add: k_def)
      qed
      with later [of i] i show "ws ! j < rs ! i" by auto
    qed
    show ?thesis
    proof (cases "r \<in> set ws")
      case True
      with kept have nk: "\<not> (k = length ws \<or> ws ! k \<noteq> r)" by simp
      have "strip_written rs ws (Suc rit) k rtop =
              take rtop rs @ filter (\<lambda>r. r \<notin> set ws) (drop (Suc rit) rs)"
        using "1.IH"(2) [of k] \<open>rit < length rs\<close> nk "1.prems"(1,3) srt' k_le inv
        by (simp add: k_def r_def)
      with True nk \<open>rit < length rs\<close> dr show ?thesis
        by (subst strip_written.simps) (simp add: k_def r_def Let_def)
    next
      case False
      with kept have yk: "k = length ws \<or> ws ! k \<noteq> r" by simp
      let ?rs' = "rs[rtop := r]"
      from "1.prems"(3) True have rtop_lt: "rtop < length rs" by simp
      have d': "drop (Suc rit) ?rs' = drop (Suc rit) rs"
        using "1.prems"(3) by simp
      have t': "take (Suc rtop) ?rs' = take rtop rs @ [r]"
        using rtop_lt by (simp add: take_Suc_conv_app_nth)
      have inv': "\<forall>j<k. \<forall>i. Suc rit \<le> i \<and> i < length ?rs' \<longrightarrow> ws ! j < ?rs' ! i"
        using inv "1.prems"(3) by auto
      have "strip_written ?rs' ws (Suc rit) k (Suc rtop) =
              take (Suc rtop) ?rs' @ filter (\<lambda>r. r \<notin> set ws) (drop (Suc rit) ?rs')"
        using "1.IH"(1) [of k] \<open>rit < length rs\<close> yk "1.prems"(1,3) srt' k_le inv' d'
        by (simp add: k_def r_def)
      with False yk \<open>rit < length rs\<close> dr d' t' show ?thesis
        by (subst strip_written.simps) (simp add: k_def r_def Let_def)
    qed
  qed
qed

lemma distinct_unique_sorted: "sorted xs \<Longrightarrow> distinct (remdups_adj xs)"
  by (induction xs rule: remdups_adj.induct) auto

lemma unique_sort: "remdups_adj (sort xs) = sorted_list_of_set (set xs)"
proof (rule sorted_distinct_set_unique)
  show "sorted (remdups_adj (sort xs))" by (simp add: sorted_remdups_adj)
  show "distinct (remdups_adj (sort xs))" by (simp add: distinct_unique_sorted)
qed simp_all

lemma Dedup_char:
  "DeduplicateNDArrayHandle rs ws =
     (filter (\<lambda>r. r \<notin> set ws) (sorted_list_of_set (set rs)), sorted_list_of_set (set ws))"
proof -
  let ?ws = "remdups_adj (sort ws)" and ?rs = "remdups_adj (sort rs)"
  have "strip_written ?rs ?ws 0 0 0 = take 0 ?rs @ filter (\<lambda>r. r \<notin> set ?ws) (drop 0 ?rs)"
    by (rule strip_written_filter) (simp_all add: sorted_remdups_adj)
  then show ?thesis
    by (simp add: DeduplicateNDArrayHandle_def Let_def unique_sort)
qed


lemma Dedup_fst_set [simp]:
  "set (fst (DeduplicateNDArrayHandle rs ws)) = set rs - set ws"
  by (auto simp: Dedup_char)

lemma Dedup_snd_set [simp]:
  "set (snd (DeduplicateNDArrayHandle rs ws)) = set ws"
  by (simp add: Dedup_char)

lemma Dedup_fst_sorted: "sorted (fst (DeduplicateNDArrayHandle rs ws))"
  by (simp add: Dedup_char sorted_wrt_filter)

lemma Dedup_snd_sorted: "sorted (snd (DeduplicateNDArrayHandle rs ws))"
  by (simp add: Dedup_char)

lemma Dedup_fst_distinct: "distinct (fst (DeduplicateNDArrayHandle rs ws))"
  by (simp add: Dedup_char)

lemma Dedup_snd_distinct: "distinct (snd (DeduplicateNDArrayHandle rs ws))"
  by (simp add: Dedup_char)

lemma Dedup_fixpoint:
  assumes "sorted rs" "distinct rs" "sorted ws" "distinct ws" "set rs \<inter> set ws = {}"
  shows "DeduplicateNDArrayHandle rs ws = (rs, ws)"
proof -
  from assms(1,2) have "sorted_list_of_set (set rs) = rs"
    by (rule sorted_list_of_set.idem_if_sorted_distinct)
  moreover from assms(3,4) have "sorted_list_of_set (set ws) = ws"
    by (rule sorted_list_of_set.idem_if_sorted_distinct)
  moreover from assms(5) have "filter (\<lambda>r. r \<notin> set ws) rs = rs"
    by (auto simp: filter_id_conv)
  ultimately show ?thesis by (simp add: Dedup_char)
qed

section \<open>The loop of Init as an invariant rule\<close>

declare Init_loop.simps [simp del] Run_setup.simps [simp del] show_nat.simps [simp del]

lemma Init_loop_done:
  "\<not> i < num_args args \<Longrightarrow>
   Init_loop K H args cl i (self, c, cn, mn) w = (Inr (self, cn, mn), w)"
  by (subst Init_loop.simps) simp

lemma Init_loop_pod:
  "i < num_args args \<Longrightarrow> type_codes args ! i \<noteq> kTVMNDArrayTypeCode K \<Longrightarrow>
   type_codes args ! i < kTVMType K \<Longrightarrow>
   Init_loop K H args cl i (self, c, cn, mn) w = Init_loop K H args cl (Suc i) (self, c, cn, mn) w"
  by (subst Init_loop.simps) simp

lemma Init_loop_bad:
  "i < num_args args \<Longrightarrow> type_codes args ! i \<noteq> kTVMNDArrayTypeCode K \<Longrightarrow>
   \<not> type_codes args ! i < kTVMType K \<Longrightarrow>
   Init_loop K H args cl i (self, c, cn, mn) w =
     (Inl (CheckFailed ''Only allow POD type in mxnet async call''), w)"
  by (subst Init_loop.simps) simp

lemma Init_loop_tensor:
  assumes "i < num_args args" "type_codes args ! i = kTVMNDArrayTypeCode K"
    and "call_MXShallowCopyNDArray H (values args ! i) w = (nd, w1)"
    and "call_MXNDArrayGetContext H nd w1 = ((t, d), w2)"
  shows "Init_loop K H args cl i (self, c, cn, mn) w =
     (if ctx_mismatch (ctx_f self) t d
      then (Inl (Exit (- 1)), emit (StdOut (inconsistent_context_msg (ctx_f self) t d)) w2)
      else Init_loop K H args cl (Suc i)
             (tensor_step K i nd t d self,
              if cursor_hit cl c i then Suc c else c,
              if cursor_hit cl c i then cn @ [nd] else cn,
              if cursor_hit cl c i then mn else mn @ [nd]) w2)"
  using assms
  by (subst Init_loop.simps) (simp add: Let_def ctx_mismatch_def tensor_step_def cursor_hit_def)

lemma Init_loop_rule:
  assumes run: "Init_loop K H args cl i (self, c, cn, mn) w = (r, w')"
    and inv: "I i self c cn mn w" and le: "i \<le> num_args args"
    and pod: "\<And>i self c cn mn w. I i self c cn mn w \<Longrightarrow> i < num_args args \<Longrightarrow>
        type_codes args ! i \<noteq> kTVMNDArrayTypeCode K \<Longrightarrow> type_codes args ! i < kTVMType K \<Longrightarrow>
        I (Suc i) self c cn mn w"
    and tensor: "\<And>i self c cn mn w nd w1 t d w2. I i self c cn mn w \<Longrightarrow> i < num_args args \<Longrightarrow>
        type_codes args ! i = kTVMNDArrayTypeCode K \<Longrightarrow>
        call_MXShallowCopyNDArray H (values args ! i) w = (nd, w1) \<Longrightarrow>
        call_MXNDArrayGetContext H nd w1 = ((t, d), w2) \<Longrightarrow>
        \<not> ctx_mismatch (ctx_f self) t d \<Longrightarrow>
        I (Suc i) (tensor_step K i nd t d self)
          (if cursor_hit cl c i then Suc c else c)
          (if cursor_hit cl c i then cn @ [nd] else cn)
          (if cursor_hit cl c i then mn else mn @ [nd]) w2"
    and fin: "\<And>self c cn mn. I (num_args args) self c cn mn w' \<Longrightarrow> r = Inr (self, cn, mn) \<Longrightarrow> Q"
    and bad: "\<And>i self c cn mn. I i self c cn mn w' \<Longrightarrow> i < num_args args \<Longrightarrow>
        type_codes args ! i \<noteq> kTVMNDArrayTypeCode K \<Longrightarrow> \<not> type_codes args ! i < kTVMType K \<Longrightarrow>
        r = Inl (CheckFailed ''Only allow POD type in mxnet async call'') \<Longrightarrow> Q"
    and mism: "\<And>i self c cn mn w0 nd w1 t d w2. I i self c cn mn w0 \<Longrightarrow> i < num_args args \<Longrightarrow>
        type_codes args ! i = kTVMNDArrayTypeCode K \<Longrightarrow>
        call_MXShallowCopyNDArray H (values args ! i) w0 = (nd, w1) \<Longrightarrow>
        call_MXNDArrayGetContext H nd w1 = ((t, d), w2) \<Longrightarrow>
        ctx_mismatch (ctx_f self) t d \<Longrightarrow> r = Inl (Exit (- 1)) \<Longrightarrow>
        w' = emit (StdOut (inconsistent_context_msg (ctx_f self) t d)) w2 \<Longrightarrow> Q"
  shows Q
  using run inv le
proof (induction "num_args args - i" arbitrary: i self c cn mn w)
  case 0
  then have "\<not> i < num_args args" by simp
  with "0.prems"(1) have "r = Inr (self, cn, mn)" "w' = w"
    by (simp_all add: Init_loop_done)
  moreover from 0 have "i = num_args args" by simp
  ultimately show ?case using "0.prems"(2) fin by blast
next
  case (Suc k)
  then have lt: "i < num_args args" and k: "k = num_args args - Suc i" by simp_all
  show ?case
  proof (cases "type_codes args ! i = kTVMNDArrayTypeCode K")
    case False
    show ?thesis
    proof (cases "type_codes args ! i < kTVMType K")
      case True
      with False lt Suc.prems(1)
      have "Init_loop K H args cl (Suc i) (self, c, cn, mn) w = (r, w')"
        by (simp add: Init_loop_pod)
      moreover have "I (Suc i) self c cn mn w"
        using Suc.prems(2) lt False True by (rule pod)
      ultimately show ?thesis using Suc.hyps(1) [OF k] lt by simp
    next
      case nlt: False
      with False lt Suc.prems(1)
      have "r = Inl (CheckFailed ''Only allow POD type in mxnet async call'')" "w' = w"
        by (simp_all add: Init_loop_bad)
      with Suc.prems(2) lt False nlt show ?thesis using bad by blast
    qed
  next
    case True
    obtain nd w1 where cp: "call_MXShallowCopyNDArray H (values args ! i) w = (nd, w1)"
      by (cases "call_MXShallowCopyNDArray H (values args ! i) w")
    obtain t d w2 where gc: "call_MXNDArrayGetContext H nd w1 = ((t, d), w2)"
      by (cases "call_MXNDArrayGetContext H nd w1") auto
    note unf = Init_loop_tensor [OF lt True cp gc, of cl self c cn mn]
    show ?thesis
    proof (cases "ctx_mismatch (ctx_f self) t d")
      case mm: True
      with unf Suc.prems(1) have "r = Inl (Exit (- 1))"
        "w' = emit (StdOut (inconsistent_context_msg (ctx_f self) t d)) w2" by simp_all
      with Suc.prems(2) lt True cp gc mm show ?thesis using mism by blast
    next
      case nm: False
      let ?c = "if cursor_hit cl c i then Suc c else c"
      let ?cn = "if cursor_hit cl c i then cn @ [nd] else cn"
      let ?mn = "if cursor_hit cl c i then mn else mn @ [nd]"
      from unf nm Suc.prems(1)
      have "Init_loop K H args cl (Suc i) (tensor_step K i nd t d self, ?c, ?cn, ?mn) w2 = (r, w')"
        by simp
      moreover have "I (Suc i) (tensor_step K i nd t d self) ?c ?cn ?mn w2"
        using Suc.prems(2) lt True cp gc nm by (rule tensor)
      ultimately show ?thesis using Suc.hyps(1) [OF k] lt by simp
    qed
  qed
qed


lemma trace_emit [simp]: "trace (emit e w) = trace w @ [e]"
  by (simp add: emit_def)

lemma trace_on_ext [simp]: "trace (on_ext f w) = trace w"
  by (simp add: on_ext_def)

lemma call_MXShallowCopyNDArray_trace:
  "call_MXShallowCopyNDArray H src w = (nd, w1) \<Longrightarrow> trace w1 = trace w @ [ShallowCopy src nd]"
  by (auto simp: call_MXShallowCopyNDArray_def split: prod.splits)

lemma call_MXNDArrayGetContext_trace:
  "call_MXNDArrayGetContext H nd w = ((t, d), w1) \<Longrightarrow> trace w1 = trace w @ [GetContext nd t d]"
  by (auto simp: call_MXNDArrayGetContext_def split: prod.splits)

lemma call_MXNDArrayToDLPack_trace:
  "call_MXNDArrayToDLPack H nd w = (dlm, w1) \<Longrightarrow> trace w1 = trace w @ [ToDLPack nd dlm]"
  by (auto simp: call_MXNDArrayToDLPack_def split: prod.splits)

lemma tensor_step_simps [simp]:
  "type_codes_f (tensor_step K i nd t d self) = (type_codes_f self)[i := kArrayHandle K]"
  "values_f (tensor_step K i nd t d self) = values_f self"
  "array_handle_f (tensor_step K i nd t d self) = array_handle_f self @ [nd]"
  "array_loc_f (tensor_step K i nd t d self) = array_loc_f self @ [i]"
  "ctx_f (tensor_step K i nd t d self) = \<lparr>dev_type = t, dev_id = d\<rparr>"
  "func_f (tensor_step K i nd t d self) = func_f self"
  "fset_stream_f (tensor_step K i nd t d self) = fset_stream_f self"
  by (simp_all add: tensor_step_def)

text \<open>What \<open>Init\<close> is on well-formed arguments.\<close>

lemma Init_wf:
  "wf_args args \<Longrightarrow>
   Init K H self args cl cn mn w =
     Init_loop K H args cl 0
       (self\<lparr>values_f := take (num_args args) (values args),
             type_codes_f := take (num_args args) (type_codes args),
             ctx_f := (ctx_f self)\<lparr>dev_id := - 1\<rparr>\<rparr>, 0, cn, mn) w"
  by (auto simp: Init_def wf_args_def Let_def)

lemma Init_not_wf:
  "\<not> wf_args args \<Longrightarrow> Init K H self args cl cn mn w = (Inl OutOfBounds, w)"
  by (auto simp: Init_def wf_args_def)

lemma tensor_slots_Suc:
  "filter (\<lambda>p. type_codes args ! p = c) [0..<Suc i] =
     filter (\<lambda>p. type_codes args ! p = c) [0..<i] @ (if type_codes args ! i = c then [i] else [])"
  by simp

text \<open>The buffers after a successful \<open>Init\<close>.\<close>

lemma Init_buffers:
  assumes run: "Init K H self args cl cn mn w = (Inr (self', cn', mn'), w')"
    and fresh: "array_loc_f self = []"
  shows "values_f self' = take (num_args args) (values args)
       \<and> length (type_codes_f self') = num_args args
       \<and> (\<forall>p<num_args args. type_codes_f self' ! p =
            (if p \<in> set (array_loc_f self') then kArrayHandle K else type_codes args ! p))
       \<and> array_loc_f self' = tensor_slots K args
       \<and> wf_args args"
proof -
  have wf: "wf_args args"
    using run by (cases "wf_args args") (simp_all add: Init_not_wf)
  let ?n = "num_args args"
  let ?I = "\<lambda>i (s :: 'a TVMFunctor) (c :: nat) (cn :: NDArrayHandle list) (mn :: NDArrayHandle list) (w :: 'a world).
       values_f s = take ?n (values args) \<and> length (type_codes_f s) = ?n
     \<and> (\<forall>p<?n. type_codes_f s ! p =
            (if p \<in> set (array_loc_f s) then kArrayHandle K else type_codes args ! p))
     \<and> array_loc_f s = filter (\<lambda>p. type_codes args ! p = kTVMNDArrayTypeCode K) [0..<i]"
  from run wf have loop: "Init_loop K H args cl 0
       (self\<lparr>values_f := take ?n (values args), type_codes_f := take ?n (type_codes args),
             ctx_f := (ctx_f self)\<lparr>dev_id := - 1\<rparr>\<rparr>, 0, cn, mn) w = (Inr (self', cn', mn'), w')"
    by (simp add: Init_wf)
  have "?I ?n self' 0 cn' mn' w'"
  proof (rule Init_loop_rule [OF loop, where I = ?I])
    show "?I 0 (self\<lparr>values_f := take ?n (values args), type_codes_f := take ?n (type_codes args),
             ctx_f := (ctx_f self)\<lparr>dev_id := - 1\<rparr>\<rparr>) 0 cn mn w"
      using wf fresh by (simp add: wf_args_def)
  next
    show "0 \<le> ?n" by simp
  next
    fix i s c cn mn w
    assume "?I i s c cn mn w" "i < ?n" "type_codes args ! i \<noteq> kTVMNDArrayTypeCode K"
    then show "?I (Suc i) s c cn mn w" by simp
  next
    fix i s c cn mn w nd w1 t d w2
    assume I: "?I i s c cn mn w" and lt: "i < ?n"
      and tc: "type_codes args ! i = kTVMNDArrayTypeCode K"
    from I lt tc show "?I (Suc i) (tensor_step K i nd t d s)
          (if cursor_hit cl c i then Suc c else c)
          (if cursor_hit cl c i then cn @ [nd] else cn)
          (if cursor_hit cl c i then mn else mn @ [nd]) w2"
      by (auto simp: nth_list_update)
  next
    fix s c cn mn
    assume "?I ?n s c cn mn w'" "Inr (self', cn', mn') = Inr (s, cn, mn)"
    then show "?I ?n self' 0 cn' mn' w'" by simp
  qed simp_all
  with wf show ?thesis by (simp add: tensor_slots_def)
qed



lemma Init_outcomes:
  assumes run: "Init K H self args cl cn mn w = (r, w')"
  shows "(\<exists>s. r = Inr s) \<or> r = Inl (CheckFailed ''Only allow POD type in mxnet async call'')
       \<or> r = Inl (Exit (- 1)) \<or> r = Inl OutOfBounds"
proof (cases "wf_args args")
  case False
  with run show ?thesis by (simp add: Init_not_wf)
next
  case True
  with run have loop: "Init_loop K H args cl 0
       (self\<lparr>values_f := take (num_args args) (values args),
             type_codes_f := take (num_args args) (type_codes args),
             ctx_f := (ctx_f self)\<lparr>dev_id := - 1\<rparr>\<rparr>, 0, cn, mn) w = (r, w')"
    by (simp add: Init_wf)
  show ?thesis
    by (rule Init_loop_rule [OF loop, where I = "\<lambda>i s c cn mn w. True"]) simp_all
qed

lemma Init_checked:
  assumes run: "Init K H self args cl cn mn w = (r, w')" and wf: "wf_args args"
  shows "(\<forall>s. r = Inr s \<longrightarrow>
            (\<forall>i<num_args args. type_codes args ! i \<noteq> kTVMNDArrayTypeCode K \<longrightarrow>
               type_codes args ! i < kTVMType K))
       \<and> (\<forall>m. r = Inl (CheckFailed m) \<longrightarrow>
            (\<exists>i<num_args args. type_codes args ! i \<noteq> kTVMNDArrayTypeCode K \<and>
               \<not> type_codes args ! i < kTVMType K))
       \<and> r \<noteq> Inl OutOfBounds"
proof -
  let ?ok = "\<lambda>i. type_codes args ! i \<noteq> kTVMNDArrayTypeCode K \<longrightarrow> type_codes args ! i < kTVMType K"
  from run wf have loop: "Init_loop K H args cl 0
       (self\<lparr>values_f := take (num_args args) (values args),
             type_codes_f := take (num_args args) (type_codes args),
             ctx_f := (ctx_f self)\<lparr>dev_id := - 1\<rparr>\<rparr>, 0, cn, mn) w = (r, w')"
    by (simp add: Init_wf)
  show ?thesis
  proof (rule Init_loop_rule [OF loop, where I = "\<lambda>i s c cn mn w. \<forall>p<i. ?ok p"])
    fix i s c cn mn w
    assume "\<forall>p<i. ?ok p" "type_codes args ! i \<noteq> kTVMNDArrayTypeCode K"
      "type_codes args ! i < kTVMType K"
    then show "\<forall>p<Suc i. ?ok p" by (auto simp: less_Suc_eq)
  next
    fix i s c cn mn w nd w1 t d w2
    assume "\<forall>p<i. ?ok p" "type_codes args ! i = kTVMNDArrayTypeCode K"
    then show "\<forall>p<Suc i. ?ok p" by (auto simp: less_Suc_eq)
  next
    fix i s c cn mn
    assume "i < num_args args" "type_codes args ! i \<noteq> kTVMNDArrayTypeCode K"
      "\<not> type_codes args ! i < kTVMType K"
      "r = Inl (CheckFailed ''Only allow POD type in mxnet async call'')"
    then show ?thesis by auto
  qed auto
qed



lemma cursor_hit_iff:
  assumes "sorted_wrt (<) cl" "cursor_at cl c i"
  shows "cursor_hit cl c i \<longleftrightarrow> int i \<in> set cl"
proof
  assume "cursor_hit cl c i"
  then show "int i \<in> set cl" by (auto simp: cursor_hit_def)
next
  assume "int i \<in> set cl"
  then obtain k where k: "k < length cl" "cl ! k = int i" by (auto simp: in_set_conv_nth)
  with assms(2) have ck: "c \<le> k" by (cases "k < c") (auto simp: cursor_at_def)
  with k have c_lt: "c < length cl" by simp
  from assms(2) c_lt have "int i \<le> cl ! c" by (auto simp: cursor_at_def)
  moreover have "cl ! c \<le> cl ! k"
  proof (cases "c = k")
    case False
    with ck have "c < k" by simp
    with assms(1) k(1) have "cl ! c < cl ! k" by (simp add: sorted_wrt_nth_less)
    then show ?thesis by simp
  qed simp
  ultimately show "cursor_hit cl c i" using k c_lt by (simp add: cursor_hit_def)
qed

lemma cursor_at_skip:
  assumes "cursor_at cl c i" "int i \<notin> set cl"
  shows "cursor_at cl c (Suc i)"
proof -
  have "int (Suc i) \<le> cl ! k" if "c \<le> k" "k < length cl" for k
  proof -
    from assms(1) that have "int i \<le> cl ! k" by (simp add: cursor_at_def)
    moreover from that assms(2) have "cl ! k \<noteq> int i" by (metis nth_mem)
    ultimately show ?thesis by simp
  qed
  moreover have "cl ! k < int (Suc i)" if "k < c" for k
    using assms(1) that by (auto simp: cursor_at_def dest: spec [of _ k])
  ultimately show ?thesis using assms(1) by (simp add: cursor_at_def)
qed

lemma cursor_at_hit:
  assumes "sorted_wrt (<) cl" "cursor_at cl c i" "cursor_hit cl c i"
  shows "cursor_at cl (Suc c) (Suc i)"
proof -
  from assms(3) have c_lt: "c < length cl" and ci: "cl ! c = int i"
    by (simp_all add: cursor_hit_def)
  have "cl ! k < int (Suc i)" if "k < Suc c" for k
  proof (cases "k = c")
    case True with ci show ?thesis by simp
  next
    case False
    with that have "k < c" by simp
    with assms(2) have "cl ! k < int i" by (simp add: cursor_at_def)
    then show ?thesis by simp
  qed
  moreover have "int (Suc i) \<le> cl ! k" if "Suc c \<le> k" "k < length cl" for k
  proof -
    from that have "c < k" by simp
    with assms(1) that(2) have "cl ! c < cl ! k" by (simp add: sorted_wrt_nth_less)
    with ci show ?thesis by simp
  qed
  ultimately show ?thesis using c_lt by (simp add: cursor_at_def)
qed

lemma Init_attribution:
  assumes run: "Init K H self args cl cn mn w = (Inr (self', cn', mn'), w')"
    and fresh: "array_handle_f self = []" "array_loc_f self = []"
    and srt: "sorted_wrt (<) cl"
    and slots: "\<forall>p\<in>set cl. 0 \<le> p \<and> nat p < num_args args \<and>
                   type_codes args ! nat p = kTVMNDArrayTypeCode K"
  shows "length (array_handle_f self') = length (array_loc_f self')
       \<and> cn' = cn @ map fst (filter (\<lambda>(h, p). int p \<in> set cl)
                               (zip (array_handle_f self') (array_loc_f self')))
       \<and> mn' = mn @ map fst (filter (\<lambda>(h, p). int p \<notin> set cl)
                               (zip (array_handle_f self') (array_loc_f self')))
       \<and> filter is_ShallowCopy (new_events w w') =
           map (\<lambda>(h, p). ShallowCopy (values args ! p) h)
               (zip (array_handle_f self') (array_loc_f self'))"
proof -
  have wf: "wf_args args"
    using run by (cases "wf_args args") (simp_all add: Init_not_wf)
  let ?n = "num_args args"
  let ?z = "\<lambda>s :: 'a TVMFunctor. zip (array_handle_f s) (array_loc_f s)"
  let ?I = "\<lambda>i (s :: 'a TVMFunctor) c cn1 mn1 (w1 :: 'a world).
       cursor_at cl c i
     \<and> length (array_handle_f s) = length (array_loc_f s)
     \<and> cn1 = cn @ map fst (filter (\<lambda>(h, p). int p \<in> set cl) (?z s))
     \<and> mn1 = mn @ map fst (filter (\<lambda>(h, p). int p \<notin> set cl) (?z s))
     \<and> (\<exists>evs. trace w1 = trace w @ evs \<and>
           filter is_ShallowCopy evs = map (\<lambda>(h, p). ShallowCopy (values args ! p) h) (?z s))"
  from run wf have loop: "Init_loop K H args cl 0
       (self\<lparr>values_f := take ?n (values args), type_codes_f := take ?n (type_codes args),
             ctx_f := (ctx_f self)\<lparr>dev_id := - 1\<rparr>\<rparr>, 0, cn, mn) w = (Inr (self', cn', mn'), w')"
    by (simp add: Init_wf)
  have "\<exists>c. ?I ?n self' c cn' mn' w'"
  proof (rule Init_loop_rule [OF loop, where I = ?I])
    have "cursor_at cl 0 0" using slots by (auto simp: cursor_at_def)
    then show "?I 0 (self\<lparr>values_f := take ?n (values args), type_codes_f := take ?n (type_codes args),
             ctx_f := (ctx_f self)\<lparr>dev_id := - 1\<rparr>\<rparr>) 0 cn mn w"
      using fresh by simp
  next
    show "0 \<le> ?n" by simp
  next
    fix i s c cn1 mn1 w1
    assume I: "?I i s c cn1 mn1 w1" and lt: "i < ?n"
      and tc: "type_codes args ! i \<noteq> kTVMNDArrayTypeCode K"
    from tc slots have "int i \<notin> set cl" by fastforce
    with I have "cursor_at cl c (Suc i)" by (simp add: cursor_at_skip)
    with I show "?I (Suc i) s c cn1 mn1 w1" by simp
  next
    fix i s c cn1 mn1 w0 nd w1 t d w2
    assume I: "?I i s c cn1 mn1 w0" and lt: "i < ?n"
      and cp: "call_MXShallowCopyNDArray H (values args ! i) w0 = (nd, w1)"
      and gc: "call_MXNDArrayGetContext H nd w1 = ((t, d), w2)"
    let ?s = "tensor_step K i nd t d s"
    from I have cur: "cursor_at cl c i" and len: "length (array_handle_f s) = length (array_loc_f s)"
      by simp_all
    have hit: "cursor_hit cl c i \<longleftrightarrow> int i \<in> set cl"
      using srt cur by (rule cursor_hit_iff)
    have cur': "cursor_at cl (if cursor_hit cl c i then Suc c else c) (Suc i)"
      using srt cur hit by (auto simp: cursor_at_hit cursor_at_skip)
    have z: "?z ?s = ?z s @ [(nd, i)]" using len by simp
    from I obtain evs where evs: "trace w0 = trace w @ evs"
      "filter is_ShallowCopy evs = map (\<lambda>(h, p). ShallowCopy (values args ! p) h) (?z s)"
      by blast
    have tr: "trace w2 = trace w @ (evs @ [ShallowCopy (values args ! i) nd, GetContext nd t d])"
      using call_MXShallowCopyNDArray_trace [OF cp] call_MXNDArrayGetContext_trace [OF gc] evs(1)
      by simp
    have ev': "filter is_ShallowCopy (evs @ [ShallowCopy (values args ! i) nd, GetContext nd t d]) =
        map (\<lambda>(h, p). ShallowCopy (values args ! p) h) (?z ?s)"
      using evs(2) z by simp
    show "?I (Suc i) ?s (if cursor_hit cl c i then Suc c else c)
          (if cursor_hit cl c i then cn1 @ [nd] else cn1)
          (if cursor_hit cl c i then mn1 else mn1 @ [nd]) w2"
    proof (intro conjI)
      show "\<exists>evs. trace w2 = trace w @ evs \<and> filter is_ShallowCopy evs =
              map (\<lambda>(h, p). ShallowCopy (values args ! p) h) (?z ?s)"
        using tr ev' by blast
    qed (use I cur' hit z len in \<open>simp_all\<close>)
  next
    fix s c cn1 mn1
    assume "?I ?n s c cn1 mn1 w'" "Inr (self', cn', mn') = Inr (s, cn1, mn1)"
    then show "\<exists>c. ?I ?n self' c cn' mn' w'" by auto
  qed simp_all
  then show ?thesis by (auto simp: new_events_def)
qed



lemma reported_append [simp]: "reported (xs @ ys) = reported xs @ reported ys"
  by (induction xs rule: reported.induct) simp_all

lemma call_MXEnginePushSyncND_trace [simp]:
  "trace (call_MXEnginePushSyncND H c rs ws w) = trace w @ [PushSync c rs ws]"
  by (simp add: call_MXEnginePushSyncND_def)

lemma wrapped_Init:
  "wrapped K H f fs cl args w =
     (case Init K H (TVMFunctor_new f fs (uninitialised_ctx H (ext (mach w)))) args cl [] [] w of
        (Inl e, w1) \<Rightarrow> (Inl e, w1)
      | (Inr (func1, cn, mn), w1) \<Rightarrow>
          (Inr \<lparr>ctx = ctx_f func1, func = func1\<rparr>,
           call_MXEnginePushSyncND H (ctx_f func1)
             (fst (DeduplicateNDArrayHandle cn mn)) (snd (DeduplicateNDArrayHandle cn mn)) w1))"
  by (simp add: wrapped_def Let_def split: prod.splits sum.splits)

lemma ex_msg:
  "inconsistent_context_msg \<lparr>dev_type = 2, dev_id = 0\<rparr> 2 1
     = ''Inconsistent context: source(2:0) vs target: (2:1)''"
  by code_simp

lemma dedup_minus_one:
  "DeduplicateNDArrayHandle [0x1013] [0x1012 :: 64 word] = ([0x1013], [0x1012])"
  by code_simp

lemma call_MXShallowCopyNDArray_host:
  "call_MXShallowCopyNDArray H src w = (nd, w1) \<Longrightarrow>
   MXShallowCopyNDArray H src (ext (mach w)) = (nd, ext (mach w1))"
  by (auto simp: call_MXShallowCopyNDArray_def emit_def on_ext_def split: prod.splits)

lemma call_MXNDArrayGetContext_host:
  "call_MXNDArrayGetContext H nd w = ((t, d), w1) \<Longrightarrow>
   MXNDArrayGetContext H nd (ext (mach w)) = ((t, d), ext (mach w1))"
  by (auto simp: call_MXNDArrayGetContext_def emit_def on_ext_def split: prod.splits)

lemma length_probe [simp]: "length (probe H hs e) = length hs"
  by (induction hs arbitrary: e) (simp_all add: Let_def split: prod.splits)

lemma tensors_from:
  "i < n \<Longrightarrow> filter P [i..<n] = (if P i then [i] else []) @ filter P [Suc i..<n]"
  by (simp add: upt_conv_Cons)

lemma tensors_split:
  "i \<le> n \<Longrightarrow> filter P [0..<n] = filter P [0..<i] @ filter P [i..<n]"
  by (metis filter_append le0 upt_add_eq_append le_add_diff_inverse)

lemma tensors_before:
  assumes "i \<le> n" "j < length (filter P [0..<n])" "filter P [0..<n] ! j < i"
  shows "j < length (filter P [0..<i])"
proof (rule ccontr)
  assume "\<not> j < length (filter P [0..<i])"
  then have ge: "length (filter P [0..<i]) \<le> j" by simp
  let ?A = "filter P [0..<i]" and ?B = "filter P [i..<n]"
  from assms(1) have sp: "filter P [0..<n] = ?A @ ?B" by (rule tensors_split)
  with assms(2) ge have "j - length ?A < length ?B" by simp
  then have "?B ! (j - length ?A) \<in> set ?B" by (rule nth_mem)
  then have "i \<le> ?B ! (j - length ?A)" by simp
  moreover from sp ge have "filter P [0..<n] ! j = ?B ! (j - length ?A)"
    by (simp add: nth_append)
  ultimately show False using assms(3) by simp
qed

text \<open>No two neighbours clash.\<close>

lemma successively_snoc:
  "successively P (xs @ [x]) \<longleftrightarrow> successively P xs \<and> (xs \<noteq> [] \<longrightarrow> P (last xs) x)"
  by (cases xs rule: rev_cases) (auto simp: successively_append_iff)


lemma Init_probe:
  assumes run: "Init K H self args cl cn mn w = (r, w')" and wf: "wf_args args"
  shows "\<exists>evs. trace w' = trace w @ evs \<and> (\<forall>e\<in>set evs. \<not> is_PushSync e) \<and>
     ((\<exists>s. r = Inr s) \<longrightarrow>
        reported evs = reported_contexts K H args (ext (mach w))
      \<and> successively (\<lambda>a b. \<not> clash a b) (reported evs)) \<and>
     (r = Inl (CheckFailed ''Only allow POD type in mxnet async call'') \<longrightarrow>
        (\<exists>i<num_args args. \<not> slot_ok K args i
           \<and> reported evs = take (length (filter (\<lambda>p. type_codes args ! p = kTVMNDArrayTypeCode K) [0..<i]))
                               (reported_contexts K H args (ext (mach w))))
      \<and> successively (\<lambda>a b. \<not> clash a b) (reported evs)) \<and>
     (r = Inl (Exit (- 1)) \<longrightarrow>
        (\<exists>pre nd k. Suc k < length (reported_contexts K H args (ext (mach w)))
           \<and> clash (reported_contexts K H args (ext (mach w)) ! k)
                   (reported_contexts K H args (ext (mach w)) ! Suc k)
           \<and> evs = pre @
               [GetContext nd (fst (reported_contexts K H args (ext (mach w)) ! Suc k))
                              (snd (reported_contexts K H args (ext (mach w)) ! Suc k)),
                StdOut (inconsistent_context_msg
                  \<lparr>dev_type = fst (reported_contexts K H args (ext (mach w)) ! k),
                   dev_id = snd (reported_contexts K H args (ext (mach w)) ! k)\<rparr>
                  (fst (reported_contexts K H args (ext (mach w)) ! Suc k))
                  (snd (reported_contexts K H args (ext (mach w)) ! Suc k)))]))"
proof -
  let ?n = "num_args args"
  let ?P = "\<lambda>p. type_codes args ! p = kTVMNDArrayTypeCode K"
  let ?val = "\<lambda>p. values args ! p"
  define cs where "cs = reported_contexts K H args (ext (mach w))"
  let ?c = "\<lambda>s :: 'a TVMFunctor. (Context.dev_type (ctx_f s), Context.dev_id (ctx_f s))"
  let ?ok = "successively (\<lambda>a b. \<not> clash a b)"
  let ?I = "\<lambda>(i :: nat) (s :: 'a TVMFunctor) (c :: nat) (cn :: NDArrayHandle list)
              (mn :: NDArrayHandle list) (w1 :: 'a world).
       \<exists>evs. trace w1 = trace w @ evs \<and> (\<forall>e\<in>set evs. \<not> is_PushSync e)
         \<and> cs = reported evs @ probe H (map ?val (filter ?P [i..<?n])) (ext (mach w1))
         \<and> length (reported evs) = length (filter ?P [0..<i])
         \<and> (reported evs = [] \<longrightarrow> Context.dev_id (ctx_f s) = - 1)
         \<and> (reported evs \<noteq> [] \<longrightarrow> ?c s = last (reported evs))
         \<and> ?ok (reported evs)"
  from run wf have loop: "Init_loop K H args cl 0
       (self\<lparr>values_f := take ?n (values args), type_codes_f := take ?n (type_codes args),
             ctx_f := (ctx_f self)\<lparr>dev_id := - 1\<rparr>\<rparr>, 0, cn, mn) w = (r, w')"
    by (simp add: Init_wf)
  have goal: "\<exists>evs. trace w' = trace w @ evs \<and> (\<forall>e\<in>set evs. \<not> is_PushSync e) \<and>
     ((\<exists>s. r = Inr s) \<longrightarrow> reported evs = cs \<and> ?ok (reported evs)) \<and>
     (r = Inl (CheckFailed ''Only allow POD type in mxnet async call'') \<longrightarrow>
        (\<exists>i<?n. \<not> slot_ok K args i
           \<and> reported evs = take (length (filter ?P [0..<i])) cs)
      \<and> ?ok (reported evs)) \<and>
     (r = Inl (Exit (- 1)) \<longrightarrow>
        (\<exists>pre nd k. Suc k < length cs \<and> clash (cs ! k) (cs ! Suc k)
           \<and> evs = pre @
               [GetContext nd (fst (cs ! Suc k)) (snd (cs ! Suc k)),
                StdOut (inconsistent_context_msg
                  \<lparr>dev_type = fst (cs ! k), dev_id = snd (cs ! k)\<rparr>
                  (fst (cs ! Suc k)) (snd (cs ! Suc k)))]))"
  proof (rule Init_loop_rule [OF loop, where I = ?I])
    show "?I 0 (self\<lparr>values_f := take ?n (values args), type_codes_f := take ?n (type_codes args),
             ctx_f := (ctx_f self)\<lparr>dev_id := - 1\<rparr>\<rparr>) 0 cn mn w"
      by (simp add: cs_def reported_contexts_def tensor_slots_def)
  next
    show "0 \<le> ?n" by simp
  next
    fix i s c cn1 mn1 w1
    assume I: "?I i s c cn1 mn1 w1" and lt: "i < ?n" and np: "\<not> ?P i"
    from lt np have "filter ?P [i..<?n] = filter ?P [Suc i..<?n]"
      by (simp add: tensors_from)
    moreover from np have "filter ?P [0..<Suc i] = filter ?P [0..<i]" by simp
    ultimately show "?I (Suc i) s c cn1 mn1 w1" using I by simp
  next
    fix i s c cn1 mn1 w0 nd w1 t d w2
    assume I: "?I i s c cn1 mn1 w0" and lt: "i < ?n" and p: "?P i"
      and cp: "call_MXShallowCopyNDArray H (values args ! i) w0 = (nd, w1)"
      and gc: "call_MXNDArrayGetContext H nd w1 = ((t, d), w2)"
      and nm: "\<not> ctx_mismatch (ctx_f s) t d"
    from I obtain evs where evs: "trace w0 = trace w @ evs" "\<forall>e\<in>set evs. \<not> is_PushSync e"
      "cs = reported evs @ probe H (map ?val (filter ?P [i..<?n])) (ext (mach w0))"
      "length (reported evs) = length (filter ?P [0..<i])"
      "reported evs = [] \<longrightarrow> Context.dev_id (ctx_f s) = - 1"
      "reported evs \<noteq> [] \<longrightarrow> ?c s = last (reported evs)"
      "?ok (reported evs)"
      by blast
    let ?evs = "evs @ [ShallowCopy (values args ! i) nd, GetContext nd t d]"
    have tr: "trace w2 = trace w @ ?evs"
      using call_MXShallowCopyNDArray_trace [OF cp] call_MXNDArrayGetContext_trace [OF gc] evs(1)
      by simp
    have rep: "reported ?evs = reported evs @ [(t, d)]" by simp
    from lt p have fr: "filter ?P [i..<?n] = i # filter ?P [Suc i..<?n]"
      by (simp add: tensors_from)
    have pr: "probe H (map ?val (filter ?P [i..<?n])) (ext (mach w0)) =
        (t, d) # probe H (map ?val (filter ?P [Suc i..<?n])) (ext (mach w2))"
      using call_MXShallowCopyNDArray_host [OF cp] call_MXNDArrayGetContext_host [OF gc]
      by (simp add: fr)
    have ok: "?ok (reported ?evs)"
    proof -
      have "\<not> clash (last (reported evs)) (t, d)" if "reported evs \<noteq> []"
      proof -
        from that evs(6) have "last (reported evs) = ?c s" by simp
        with nm show ?thesis by (auto simp: clash_def ctx_mismatch_def)
      qed
      with evs(7) show ?thesis by (simp add: rep successively_snoc)
    qed
    let ?s = "tensor_step K i nd t d s"
    have "trace w2 = trace w @ ?evs \<and> (\<forall>e\<in>set ?evs. \<not> is_PushSync e)
         \<and> cs = reported ?evs @ probe H (map ?val (filter ?P [Suc i..<?n])) (ext (mach w2))
         \<and> length (reported ?evs) = length (filter ?P [0..<Suc i])
         \<and> (reported ?evs = [] \<longrightarrow> Context.dev_id (ctx_f ?s) = - 1)
         \<and> (reported ?evs \<noteq> [] \<longrightarrow> ?c ?s = last (reported ?evs))
         \<and> ?ok (reported ?evs)"
      using tr evs(2,3,4) pr ok p by (simp add: rep)
    then show "?I (Suc i) ?s (if cursor_hit cl c i then Suc c else c)
          (if cursor_hit cl c i then cn1 @ [nd] else cn1)
          (if cursor_hit cl c i then mn1 else mn1 @ [nd]) w2"
      by blast
  next
    fix s c cn1 mn1
    assume I: "?I ?n s c cn1 mn1 w'" and r: "r = Inr (s, cn1, mn1)"
    from I obtain evs where evs: "trace w' = trace w @ evs" "\<forall>e\<in>set evs. \<not> is_PushSync e"
      "cs = reported evs @ probe H (map ?val (filter ?P [?n..<?n])) (ext (mach w'))"
      "?ok (reported evs)"
      by blast
    from evs(3) have "reported evs = cs" by simp
    with evs(1,2,4) r show ?thesis by auto
  next
    fix i s c cn1 mn1
    assume I: "?I i s c cn1 mn1 w'" and lt: "i < ?n" and np: "\<not> ?P i"
      and bad: "\<not> type_codes args ! i < kTVMType K"
      and r: "r = Inl (CheckFailed ''Only allow POD type in mxnet async call'')"
    from I obtain evs where evs: "trace w' = trace w @ evs" "\<forall>e\<in>set evs. \<not> is_PushSync e"
      "cs = reported evs @ probe H (map ?val (filter ?P [i..<?n])) (ext (mach w'))"
      "length (reported evs) = length (filter ?P [0..<i])"
      "?ok (reported evs)"
      by blast
    from evs(3,4) have tk: "reported evs = take (length (filter ?P [0..<i])) cs"
      by (metis append_eq_conv_conj)
    from np bad have "\<not> slot_ok K args i" by (simp add: slot_ok_def)
    with lt tk have "\<exists>i<?n. \<not> slot_ok K args i
           \<and> reported evs = take (length (filter ?P [0..<i])) cs"
      by blast
    with evs(1,2,5) r show ?thesis by auto
  next
    fix i s c cn1 mn1 w0 nd w1 t d w2
    assume I: "?I i s c cn1 mn1 w0" and lt: "i < ?n" and p: "?P i"
      and cp: "call_MXShallowCopyNDArray H (values args ! i) w0 = (nd, w1)"
      and gc: "call_MXNDArrayGetContext H nd w1 = ((t, d), w2)"
      and mm: "ctx_mismatch (ctx_f s) t d" and r: "r = Inl (Exit (- 1))"
      and w': "w' = emit (StdOut (inconsistent_context_msg (ctx_f s) t d)) w2"
    from I obtain evs where evs: "trace w0 = trace w @ evs" "\<forall>e\<in>set evs. \<not> is_PushSync e"
      "cs = reported evs @ probe H (map ?val (filter ?P [i..<?n])) (ext (mach w0))"
      "reported evs = [] \<longrightarrow> Context.dev_id (ctx_f s) = - 1"
      "reported evs \<noteq> [] \<longrightarrow> ?c s = last (reported evs)"
      by blast
    from lt p have fr: "filter ?P [i..<?n] = i # filter ?P [Suc i..<?n]"
      by (simp add: tensors_from)
    have pr: "probe H (map ?val (filter ?P [i..<?n])) (ext (mach w0)) =
        (t, d) # probe H (map ?val (filter ?P [Suc i..<?n])) (ext (mach w2))"
      using call_MXShallowCopyNDArray_host [OF cp] call_MXNDArrayGetContext_host [OF gc]
      by (simp add: fr)
    from mm evs(4) have ne: "reported evs \<noteq> []" by (auto simp: ctx_mismatch_def)
    define k where "k = length (reported evs) - 1"
    from ne have k: "Suc k = length (reported evs)" by (simp add: k_def)
    from evs(3) pr have cs: "cs = reported evs @ (t, d) # probe H (map ?val (filter ?P [Suc i..<?n])) (ext (mach w2))"
      by simp
    have at_k: "cs ! k = ?c s"
      using ne evs(5) k by (simp add: cs nth_append last_conv_nth k_def)
    have at_Sk: "cs ! Suc k = (t, d)" using k by (simp add: cs nth_append)
    have len: "Suc k < length cs" using k by (simp add: cs)
    have cl: "clash (cs ! k) (cs ! Suc k)"
      using mm by (auto simp: at_k at_Sk clash_def ctx_mismatch_def)
    let ?pre = "evs @ [ShallowCopy (values args ! i) nd]"
    have ctx_eq: "\<lparr>dev_type = fst (cs ! k), dev_id = snd (cs ! k)\<rparr> = ctx_f s"
      by (simp add: at_k)
    have tr: "trace w' = trace w @ (?pre @
        [GetContext nd (fst (cs ! Suc k)) (snd (cs ! Suc k)),
         StdOut (inconsistent_context_msg \<lparr>dev_type = fst (cs ! k), dev_id = snd (cs ! k)\<rparr>
                   (fst (cs ! Suc k)) (snd (cs ! Suc k)))])"
      using call_MXShallowCopyNDArray_trace [OF cp] call_MXNDArrayGetContext_trace [OF gc] evs(1) w'
      by (simp add: ctx_eq at_Sk)
    have np: "\<forall>e\<in>set (?pre @
        [GetContext nd (fst (cs ! Suc k)) (snd (cs ! Suc k)),
         StdOut (inconsistent_context_msg \<lparr>dev_type = fst (cs ! k), dev_id = snd (cs ! k)\<rparr>
                   (fst (cs ! Suc k)) (snd (cs ! Suc k)))]). \<not> is_PushSync e"
      using evs(2) by simp
    from tr np len cl r show ?thesis by blast
  qed
  then show ?thesis unfolding cs_def .
qed


lemma run_two_gpus:
  "wrapped ex_abi ex_host ex_func set_stream [0] ex_args_two_gpus ex_world =
     (Inl (Exit (- 1)),
      \<lparr>mach = \<lparr>ext = 4, DEV_ID = 0, STRM = 0\<rparr>,
       trace = [ShallowCopy 0x10 0x1010, GetContext 0x1010 2 0,
                ShallowCopy 0x12 0x1012, GetContext 0x1012 2 1,
                StdOut ''Inconsistent context: source(2:0) vs target: (2:1)'']\<rparr>)"
  by (simp add: wrapped_def ex_host_def ex_abi_def ex_world_def ex_args_two_gpus_def
        TVMFunctor_new_def Init_def Init_loop.simps Let_def call_MXShallowCopyNDArray_def
        call_MXNDArrayGetContext_def emit_def on_ext_def ex_msg)

lemma contexts_two_gpus:
  "reported_contexts ex_abi ex_host ex_args_two_gpus (ext (mach ex_world)) = [(2, 0), (2, 1)]"
  by code_simp

lemma contexts_minus_one:
  "reported_contexts ex_abi ex_host ex_args_minus_one (ext (mach ex_world)) = [(3, - 1), (2, 1)]"
  by code_simp

lemma contexts_gpus_bad:
  "reported_contexts ex_abi ex_host ex_args_gpus_bad (ext (mach ex_world)) = [(2, 0), (2, 1)]"
  by code_simp

section \<open>The trace of Run, and the registry\<close>

lemma mach_emit [simp]: "mach (emit e w) = mach w"
  by (simp add: emit_def)

lemma trace_call_deleter [simp]: "trace (call_deleter H w dlm) = trace w @ [Deleter dlm]"
  by (simp add: call_deleter_def)

lemma mach_call_deleter [simp]:
  "mach (call_deleter H w dlm) = (mach w)\<lparr>ext := dlm_deleter H dlm (ext (mach w))\<rparr>"
  by (simp add: call_deleter_def on_ext_def)

lemma trace_call_fset_stream [simp]:
  "trace (call_fset_stream fs t d s w) = trace w @ [SetStream t d s]"
  by (simp add: call_fset_stream_def)

lemma mach_call_fset_stream [simp]:
  "mach (call_fset_stream fs t d s w) = fs t d s (mach w)"
  by (simp add: call_fset_stream_def)

lemma trace_deleters: "trace (foldl (call_deleter H) w dlms) = trace w @ map Deleter dlms"
  by (induction dlms arbitrary: w) simp_all

lemma mach_deleters: "mach (foldl (call_deleter H) w dlms) = run_deleters H dlms (mach w)"
  by (induction dlms arbitrary: w) (simp_all add: run_deleters_def)

lemma ext_run_deleters:
  "ext (run_deleters H dlms m) = foldl (\<lambda>e dlm. dlm_deleter H dlm e) (ext m) dlms"
  by (induction dlms arbitrary: m) (simp_all add: run_deleters_def)

lemma CallPacked_func_Returned:
  "f vs cs (mach w) = Returned m \<Longrightarrow>
   CallPacked_func f vs cs w = Returned (emit (CallPacked vs cs) (w\<lparr>mach := m\<rparr>))"
  by (simp add: CallPacked_func_def)

lemma CallPacked_func_Threw:
  "f vs cs (mach w) = Threw m \<Longrightarrow>
   CallPacked_func f vs cs w = Threw (emit (CallPacked vs cs) (w\<lparr>mach := m\<rparr>))"
  by (simp add: CallPacked_func_def)

lemma length_to_dlpack_all:
  "to_dlpack_all H hs e = (dlms, e1) \<Longrightarrow> length dlms = length hs"
  by (induction hs arbitrary: e dlms) (auto simp: Let_def split: prod.splits)

lemma Run_setup_done:
  "\<not> i < length (array_loc_f self) \<Longrightarrow> Run_setup K H i (self, dlms) w = (Inr (self, dlms), w)"
  by (subst Run_setup.simps) simp

lemma Run_setup_step:
  assumes "i < length (array_loc_f self)"
    and "call_MXNDArrayToDLPack H (array_handle_f self ! i) w = (dlm, w1)"
  shows "Run_setup K H i (self, dlms) w =
     (if i < length (array_handle_f self) then
        if array_loc_f self ! i < length (values_f self)
        then Run_setup K H (Suc i)
               (self\<lparr>values_f := (values_f self)[array_loc_f self ! i := dlm + dl_tensor_offset K]\<rparr>,
                dlms[i := dlm]) w1
        else (Inl OutOfBounds, w1)
      else (Inl OutOfBounds, w))"
  using assms by (subst Run_setup.simps) (simp add: Let_def)

text \<open>The first loop of \<open>Run\<close> on a functor as \<open>Init\<close> leaves it.\<close>

lemma Run_setup_char:
  assumes "functor_wf self" and "i \<le> length (array_loc_f self)"
    and "length dlms0 = length (array_loc_f self)"
    and "to_dlpack_all H (drop i (array_handle_f self)) (ext (mach w)) = (ds, e1)"
  shows "Run_setup K H i (self, dlms0) w =
     (Inr (self\<lparr>values_f := bind_values K (values_f self) (drop i (array_loc_f self)) ds\<rparr>,
           take i dlms0 @ ds),
      w\<lparr>mach := (mach w)\<lparr>ext := e1\<rparr>,
        trace := trace w @ map (\<lambda>(h, dlm). ToDLPack h dlm) (zip (drop i (array_handle_f self)) ds)\<rparr>)"
  using assms
proof (induction "length (array_loc_f self) - i" arbitrary: i self dlms0 w ds)
  case 0
  then have i: "i = length (array_loc_f self)" by simp
  with "0.prems"(1) have "drop i (array_handle_f self) = []" by (simp add: functor_wf_def)
  with "0.prems"(4) have "ds = []" "e1 = ext (mach w)" by simp_all
  with i "0.prems"(3) show ?case by (simp add: Run_setup_done bind_values_def)
next
  case (Suc k)
  let ?n = "length (array_loc_f self)"
  let ?hs = "array_handle_f self" and ?ls = "array_loc_f self"
  from Suc have lt: "i < ?n" by simp
  from Suc.prems(1) lt have h: "i < length ?hs" and v: "?ls ! i < length (values_f self)"
    by (simp_all add: functor_wf_def list_all_length)
  from h have dh: "drop i ?hs = ?hs ! i # drop (Suc i) ?hs" by (simp add: Cons_nth_drop_Suc)
  from lt have dl: "drop i ?ls = ?ls ! i # drop (Suc i) ?ls" by (simp add: Cons_nth_drop_Suc)
  obtain dlm e' where td: "MXNDArrayToDLPack H (?hs ! i) (ext (mach w)) = (dlm, e')"
    by (cases "MXNDArrayToDLPack H (?hs ! i) (ext (mach w))")
  obtain ds' e'' where rest: "to_dlpack_all H (drop (Suc i) ?hs) e' = (ds', e'')"
    by (cases "to_dlpack_all H (drop (Suc i) ?hs) e'")
  from Suc.prems(4) td rest have ds: "ds = dlm # ds'" and e1: "e1 = e''"
    by (simp_all add: dh)
  let ?w1 = "emit (ToDLPack (?hs ! i) dlm) (on_ext (\<lambda>_. e') w)"
  have call: "call_MXNDArrayToDLPack H (?hs ! i) w = (dlm, ?w1)"
    by (simp add: call_MXNDArrayToDLPack_def td)
  let ?self1 = "self\<lparr>values_f := (values_f self)[?ls ! i := dlm + dl_tensor_offset K]\<rparr>"
  have step: "Run_setup K H i (self, dlms0) w = Run_setup K H (Suc i) (?self1, dlms0[i := dlm]) ?w1"
    using Run_setup_step [OF lt call, of K dlms0] h v by simp
  have wf1: "functor_wf ?self1" using Suc.prems(1) by (simp add: functor_wf_def)
  have k: "k = length (array_loc_f ?self1) - Suc i" using Suc.hyps(2) by simp
  have rest1: "to_dlpack_all H (drop (Suc i) (array_handle_f ?self1)) (ext (mach ?w1)) = (ds', e1)"
    using rest e1 by (simp add: on_ext_def)
  have IH: "Run_setup K H (Suc i) (?self1, dlms0[i := dlm]) ?w1 =
     (Inr (?self1\<lparr>values_f := bind_values K (values_f ?self1) (drop (Suc i) (array_loc_f ?self1)) ds'\<rparr>,
           take (Suc i) (dlms0[i := dlm]) @ ds'),
      ?w1\<lparr>mach := (mach ?w1)\<lparr>ext := e1\<rparr>,
          trace := trace ?w1 @ map (\<lambda>(h, dlm). ToDLPack h dlm)
                                  (zip (drop (Suc i) (array_handle_f ?self1)) ds')\<rparr>)"
    using Suc.hyps(1) [OF k wf1 _ _ rest1] lt Suc.prems(3) by simp
  have bv: "bind_values K (values_f ?self1) (drop (Suc i) ?ls) ds'
          = bind_values K (values_f self) (drop i ?ls) ds"
    by (simp add: bind_values_def dl ds)
  have tk: "take (Suc i) (dlms0[i := dlm]) @ ds' = take i dlms0 @ ds"
    using lt Suc.prems(3) by (simp add: ds take_Suc_conv_app_nth)
  have wd: "?w1\<lparr>mach := (mach ?w1)\<lparr>ext := e1\<rparr>,
          trace := trace ?w1 @ map (\<lambda>(h, dlm). ToDLPack h dlm) (zip (drop (Suc i) ?hs) ds')\<rparr>
        = w\<lparr>mach := (mach w)\<lparr>ext := e1\<rparr>,
            trace := trace w @ map (\<lambda>(h, dlm). ToDLPack h dlm) (zip (drop i ?hs) ds)\<rparr>"
    by (simp add: emit_def on_ext_def dh ds)
  show ?case unfolding step IH using bv tk wd by simp
qed


lemma Run_setup_start:
  assumes "functor_wf self"
    and "to_dlpack_all H (array_handle_f self) (ext (mach w)) = (dlms, e1)"
  shows "Run_setup K H 0 (self, replicate (length (array_loc_f self)) 0) w =
     (Inr (self\<lparr>values_f := bind_values K (values_f self) (array_loc_f self) dlms\<rparr>, dlms),
      w\<lparr>mach := (mach w)\<lparr>ext := e1\<rparr>,
        trace := trace w @ map (\<lambda>(h, dlm). ToDLPack h dlm) (zip (array_handle_f self) dlms)\<rparr>)"
  using Run_setup_char [OF assms(1), of 0 "replicate (length (array_loc_f self)) 0" H w dlms e1 K]
    assms(2)
  by simp

text \<open>\<open>Run\<close> after its first loop: the user function returns, or it throws.\<close>

lemma Run_returns:
  assumes wf: "functor_wf self"
    and prod: "to_dlpack_all H (array_handle_f self) (ext (mach w)) = (dlms, e1)"
    and m1: "m1 = (mach w)\<lparr>ext := e1\<rparr>"
    and vs: "vs = bind_values K (values_f self) (array_loc_f self) dlms"
    and strm: "strm = load_ptr H (stream rctx) e1"
    and dev: "dev = Context.dev_id (RunContext.ctx rctx)"
    and call: "m_call = (if Context.dev_type (ctx_f self) = kGPU
                         then fset_stream_f self (kDLGPU K) dev strm m1 else m1)"
    and ret: "func_f self vs (type_codes_f self) m_call = Returned m3"
  shows "fst (Run K H self rctx w) = Inr (self\<lparr>values_f := vs\<rparr>)
       \<and> trace (snd (Run K H self rctx w)) =
           trace w @ map (\<lambda>(h, dlm). ToDLPack h dlm) (zip (array_handle_f self) dlms)
           @ (if Context.dev_type (ctx_f self) = kGPU
              then [SetStream (kDLGPU K) dev strm, CallPacked vs (type_codes_f self),
                    SetStream (kDLGPU K) dev 0]
              else [CallPacked vs (type_codes_f self)])
           @ map Deleter dlms
       \<and> mach (snd (Run K H self rctx w)) =
           run_deleters H dlms
             (if Context.dev_type (ctx_f self) = kGPU
              then fset_stream_f self (kDLGPU K) dev 0 m3 else m3)"
proof -
  let ?w1 = "w\<lparr>mach := (mach w)\<lparr>ext := e1\<rparr>,
        trace := trace w @ map (\<lambda>(h, dlm). ToDLPack h dlm) (zip (array_handle_f self) dlms)\<rparr>"
  let ?self1 = "self\<lparr>values_f := vs\<rparr>"
  have su: "Run_setup K H 0 (self, replicate (length (array_loc_f self)) 0) w
              = (Inr (?self1, dlms), ?w1)"
    using Run_setup_start [OF wf prod, of K] by (simp add: vs)
  show ?thesis
  proof (cases "Context.dev_type (ctx_f self) = kGPU")
    case True
    let ?wa = "call_fset_stream (fset_stream_f self) (kDLGPU K) dev strm ?w1"
    from ret call True m1 have "func_f self vs (type_codes_f self) (mach ?wa) = Returned m3"
      by simp
    then have cp: "CallPacked_func (func_f self) vs (type_codes_f self) ?wa
        = Returned (emit (CallPacked vs (type_codes_f self)) (?wa\<lparr>mach := m3\<rparr>))"
      by (rule CallPacked_func_Returned)
    show ?thesis
      using True cp
      by (simp add: Run_def su Let_def strm dev trace_deleters mach_deleters)
  next
    case False
    from ret call False m1 have "func_f self vs (type_codes_f self) (mach ?w1) = Returned m3"
      by simp
    then have cp: "CallPacked_func (func_f self) vs (type_codes_f self) ?w1
        = Returned (emit (CallPacked vs (type_codes_f self)) (?w1\<lparr>mach := m3\<rparr>))"
      by (rule CallPacked_func_Returned)
    show ?thesis
      using False cp
      by (simp add: Run_def su Let_def trace_deleters mach_deleters)
  qed
qed

lemma Run_throws:
  assumes wf: "functor_wf self"
    and prod: "to_dlpack_all H (array_handle_f self) (ext (mach w)) = (dlms, e1)"
    and m1: "m1 = (mach w)\<lparr>ext := e1\<rparr>"
    and vs: "vs = bind_values K (values_f self) (array_loc_f self) dlms"
    and strm: "strm = load_ptr H (stream rctx) e1"
    and dev: "dev = Context.dev_id (RunContext.ctx rctx)"
    and call: "m_call = (if Context.dev_type (ctx_f self) = kGPU
                         then fset_stream_f self (kDLGPU K) dev strm m1 else m1)"
    and thr: "func_f self vs (type_codes_f self) m_call = Threw m3"
  shows "fst (Run K H self rctx w) = Inl Thrown
       \<and> trace (snd (Run K H self rctx w)) =
           trace w @ map (\<lambda>(h, dlm). ToDLPack h dlm) (zip (array_handle_f self) dlms)
           @ (if Context.dev_type (ctx_f self) = kGPU
              then [SetStream (kDLGPU K) dev strm, CallPacked vs (type_codes_f self)]
              else [CallPacked vs (type_codes_f self)])
       \<and> mach (snd (Run K H self rctx w)) = m3"
proof -
  let ?w1 = "w\<lparr>mach := (mach w)\<lparr>ext := e1\<rparr>,
        trace := trace w @ map (\<lambda>(h, dlm). ToDLPack h dlm) (zip (array_handle_f self) dlms)\<rparr>"
  let ?self1 = "self\<lparr>values_f := vs\<rparr>"
  have su: "Run_setup K H 0 (self, replicate (length (array_loc_f self)) 0) w
              = (Inr (?self1, dlms), ?w1)"
    using Run_setup_start [OF wf prod, of K] by (simp add: vs)
  show ?thesis
  proof (cases "Context.dev_type (ctx_f self) = kGPU")
    case True
    let ?wa = "call_fset_stream (fset_stream_f self) (kDLGPU K) dev strm ?w1"
    from thr call True m1 have "func_f self vs (type_codes_f self) (mach ?wa) = Threw m3"
      by simp
    then have cp: "CallPacked_func (func_f self) vs (type_codes_f self) ?wa
        = Threw (emit (CallPacked vs (type_codes_f self)) (?wa\<lparr>mach := m3\<rparr>))"
      by (rule CallPacked_func_Threw)
    show ?thesis
      using True cp
      by (simp add: Run_def su Let_def strm dev)
  next
    case False
    from thr call False m1 have "func_f self vs (type_codes_f self) (mach ?w1) = Threw m3"
      by simp
    then have cp: "CallPacked_func (func_f self) vs (type_codes_f self) ?w1
        = Threw (emit (CallPacked vs (type_codes_f self)) (?w1\<lparr>mach := m3\<rparr>))"
      by (rule CallPacked_func_Threw)
    show ?thesis
      using False cp
      by (simp add: Run_def su Let_def)
  qed
qed

lemma filter_ToDLPack_calls [simp]:
  "filter (\<lambda>e. is_SetStream e \<or> is_CallPacked e) (map (\<lambda>(h, dlm). ToDLPack h dlm) ps) = []"
  by (induction ps) auto

lemma filter_Deleter_calls [simp]:
  "filter (\<lambda>e. is_SetStream e \<or> is_CallPacked e) (map Deleter ds) = []"
  by (induction ds) simp_all


lemma ex_wf: "functor_wf ex_functor_gpu" "functor_wf ex_functor_cpu" "functor_wf ex_functor_throw"
  by (simp_all add: functor_wf_def ex_functor_gpu_def ex_functor_cpu_def ex_functor_throw_def)

lemma ex_produced:
  "to_dlpack_all ex_host (array_handle_f ex_functor_gpu) (ext (mach ex_world))
     = ([0x21010, 0x21011], 2)"
  "to_dlpack_all ex_host (array_handle_f ex_functor_cpu) (ext (mach ex_world))
     = ([0x21010, 0x21011], 2)"
  "to_dlpack_all ex_host (array_handle_f ex_functor_throw) (ext (mach ex_world))
     = ([0x21010, 0x21011], 2)"
  by (simp_all add: ex_functor_gpu_def ex_functor_cpu_def ex_functor_throw_def ex_host_def
        ex_world_def numeral_2_eq_2)

lemmas run_eval = Run_def Run_setup.simps Let_def call_MXNDArrayToDLPack_def call_fset_stream_def
  CallPacked_func_def call_deleter_def emit_def on_ext_def set_stream_def kGPU_def
  ex_functor_gpu_def ex_functor_cpu_def ex_functor_throw_def ex_func_def ex_func_throw_def
  ex_abi_def ex_host_def ex_world_def ex_rctx_def ex_rctx_gpu1_def numeral_2_eq_2

lemma run_gpu:
  "trace (snd (Run ex_abi ex_host ex_functor_gpu ex_rctx ex_world)) =
     [ToDLPack 0x1010 0x21010, ToDLPack 0x1011 0x21011,
      SetStream 2 0 0x5555, CallPacked [0x21010, 5, 0x21011] [7, 0, 7], SetStream 2 0 0,
      Deleter 0x21010, Deleter 0x21011]"
  "mach (snd (Run ex_abi ex_host ex_functor_gpu ex_rctx ex_world))
     = \<lparr>ext = 5, DEV_ID = 0, STRM = 0\<rparr>"
  by (simp_all add: run_eval)

lemma run_gpu1:
  "trace (snd (Run ex_abi ex_host ex_functor_gpu ex_rctx_gpu1 ex_world)) =
     [ToDLPack 0x1010 0x21010, ToDLPack 0x1011 0x21011,
      SetStream 2 1 0x5555, CallPacked [0x21010, 5, 0x21011] [7, 0, 7], SetStream 2 1 0,
      Deleter 0x21010, Deleter 0x21011]"
  by (simp add: run_eval)

lemma run_cpu:
  "trace (snd (Run ex_abi ex_host ex_functor_cpu ex_rctx ex_world)) =
     [ToDLPack 0x1010 0x21010, ToDLPack 0x1011 0x21011,
      CallPacked [0x21010, 5, 0x21011] [7, 0, 7],
      Deleter 0x21010, Deleter 0x21011]"
  "mach (snd (Run ex_abi ex_host ex_functor_cpu ex_rctx ex_world))
     = \<lparr>ext = 5, DEV_ID = 0, STRM = 0\<rparr>"
  by (simp_all add: run_eval)

lemma run_throw:
  "fst (Run ex_abi ex_host ex_functor_throw ex_rctx ex_world) = Inl Thrown"
  "trace (snd (Run ex_abi ex_host ex_functor_throw ex_rctx ex_world)) =
     [ToDLPack 0x1010 0x21010, ToDLPack 0x1011 0x21011,
      SetStream 2 0 0x5555, CallPacked [0x21010, 5, 0x21011] [7, 0, 7]]"
  by (simp_all add: run_eval)


lemma new_events_ex_world [simp]: "new_events ex_world w' = trace w'"
  by (simp add: new_events_def ex_world_def)

lemma Init_functor_wf:
  assumes run: "Init K H self args cl cn mn w = (Inr (self', cn', mn'), w')"
    and fresh: "array_handle_f self = []" "array_loc_f self = []"
  shows "functor_wf self'"
proof -
  note b = Init_buffers [OF run fresh(2)]
  then have wf: "wf_args args" by simp
  let ?n = "num_args args"
  let ?I = "\<lambda>(i :: nat) (s :: 'a TVMFunctor) (c :: nat) (cn :: NDArrayHandle list)
              (mn :: NDArrayHandle list) (w1 :: 'a world).
              length (array_handle_f s) = length (array_loc_f s)"
  from run wf have loop: "Init_loop K H args cl 0
       (self\<lparr>values_f := take ?n (values args), type_codes_f := take ?n (type_codes args),
             ctx_f := (ctx_f self)\<lparr>dev_id := - 1\<rparr>\<rparr>, 0, cn, mn) w = (Inr (self', cn', mn'), w')"
    by (simp add: Init_wf)
  have len: "length (array_handle_f self') = length (array_loc_f self')"
    by (rule Init_loop_rule [OF loop, where I = ?I]) (use fresh in simp_all)
  from b wf have "list_all (\<lambda>p. p < length (values_f self')) (array_loc_f self')"
    by (simp add: tensor_slots_def wf_args_def list_all_iff)
  with len show ?thesis by (simp add: functor_wf_def)
qed



section \<open>The claims\<close>

text \<open>
  C1: after \<open>DeduplicateNDArrayHandle\<close> the write-set is the deduplication of the input
  write-set (same handles, none twice), the read-set and the write-set are disjoint and
  duplicate-free, their union is the union of the inputs, and a handle present in both
  inputs ends up in the write-set only. For four different handles \<open>A\<close>, \<open>B\<close>, \<open>C\<close>, \<open>D\<close>,
  the provisional reads \<open>[A,B,A,C,B]\<close> and writes \<open>[B,D]\<close> give the reads \<open>{A,C}\<close> and the
  writes \<open>{B,D}\<close>.
\<close>

theorem DeduplicateNDArrayHandle_sets:
  fixes read_nds write_nds :: "'a::linorder list" and A B C D :: 'a
  shows "(case DeduplicateNDArrayHandle read_nds write_nds of (reads, writes) \<Rightarrow>
            set writes = set write_nds \<and> distinct writes
          \<and> set reads \<inter> set writes = {}
          \<and> distinct (reads @ writes)
          \<and> set reads \<union> set writes = set read_nds \<union> set write_nds
          \<and> (\<forall>h. h \<in> set read_nds \<and> h \<in> set write_nds \<longrightarrow> h \<in> set writes \<and> h \<notin> set reads))
       \<and> (distinct [A, B, C, D] \<longrightarrow>
            (case DeduplicateNDArrayHandle [A, B, A, C, B] [B, D] of (reads, writes) \<Rightarrow>
               set reads = {A, C} \<and> set writes = {B, D}))"
proof -
  obtain reads writes where D: "DeduplicateNDArrayHandle read_nds write_nds = (reads, writes)"
    by (cases "DeduplicateNDArrayHandle read_nds write_nds")
  have r: "set reads = set read_nds - set write_nds" and w: "set writes = set write_nds"
    using Dedup_fst_set [of read_nds write_nds] Dedup_snd_set [of read_nds write_nds]
    by (simp_all add: D)
  have dr: "distinct reads" and dw: "distinct writes"
    using Dedup_fst_distinct [of read_nds write_nds] Dedup_snd_distinct [of read_nds write_nds]
    by (simp_all add: D)
  have general: "set writes = set write_nds \<and> distinct writes
      \<and> set reads \<inter> set writes = {}
      \<and> distinct (reads @ writes)
      \<and> set reads \<union> set writes = set read_nds \<union> set write_nds
      \<and> (\<forall>h. h \<in> set read_nds \<and> h \<in> set write_nds \<longrightarrow> h \<in> set writes \<and> h \<notin> set reads)"
    using r w dr dw by auto
  obtain reads' writes' where
    E: "DeduplicateNDArrayHandle [A, B, A, C, B] [B, D] = (reads', writes')"
    by (cases "DeduplicateNDArrayHandle [A, B, A, C, B] [B, D]")
  have r': "set reads' = set [A, B, A, C, B] - set [B, D]" and w': "set writes' = set [B, D]"
    using Dedup_fst_set [of "[A, B, A, C, B]" "[B, D]"] Dedup_snd_set [of "[A, B, A, C, B]" "[B, D]"]
    by (simp_all only: E fst_conv snd_conv)
  have example: "distinct [A, B, C, D] \<longrightarrow> set reads' = {A, C} \<and> set writes' = {B, D}"
    using r' w' by auto
  from general example show ?thesis unfolding D E prod.case by blast
qed

theorem DeduplicateNDArrayHandle_sets_witness:
  "DeduplicateNDArrayHandle [1, 2, 1, 3, 2] [2, 4 :: 64 word] = ([1, 3], [2, 4])
   \<and> distinct [1, 2, 3, 4 :: 64 word]
   \<and> set (fst (DeduplicateNDArrayHandle [1, 2, 1, 3, 2] [2, 4 :: 64 word])) = {1, 3}
   \<and> set (snd (DeduplicateNDArrayHandle [1, 2, 1, 3, 2] [2, 4 :: 64 word])) = {2, 4}"
proof -
  have ev: "DeduplicateNDArrayHandle [1, 2, 1, 3, 2] [2, 4 :: 64 word] = ([1, 3], [2, 4])"
    by code_simp
  have d: "distinct [1, 2, 3, 4 :: 64 word]"
    by code_simp
  from DeduplicateNDArrayHandle_sets [of "[1, 2, 1, 3, 2]" "[2, 4]" 1 2 3 "4 :: 64 word"] d ev
  show ?thesis by (simp del: distinct.simps)
qed

text \<open>
  C9: dependency derivation is idempotent: applied to its own output,
  \<open>DeduplicateNDArrayHandle\<close> returns that output again.
\<close>

theorem DeduplicateNDArrayHandle_idempotent:
  "DeduplicateNDArrayHandle (fst (DeduplicateNDArrayHandle read_nds write_nds))
                            (snd (DeduplicateNDArrayHandle read_nds write_nds))
     = DeduplicateNDArrayHandle read_nds write_nds"
proof -
  let ?D = "DeduplicateNDArrayHandle read_nds write_nds"
  have "set (fst ?D) \<inter> set (snd ?D) = {}" by auto
  then have "DeduplicateNDArrayHandle (fst ?D) (snd ?D) = (fst ?D, snd ?D)"
    by (intro Dedup_fixpoint Dedup_fst_sorted Dedup_snd_sorted Dedup_fst_distinct
          Dedup_snd_distinct)
  then show ?thesis by simp
qed

theorem DeduplicateNDArrayHandle_idempotent_witness:
  "DeduplicateNDArrayHandle [1, 2, 1, 3, 2] [2, 4 :: 64 word] = ([1, 3], [2, 4])
   \<and> DeduplicateNDArrayHandle [1, 3] [2, 4 :: 64 word] = ([1, 3], [2, 4])"
proof -
  have ev: "DeduplicateNDArrayHandle [1, 2, 1, 3, 2] [2, 4 :: 64 word] = ([1, 3], [2, 4])"
    by code_simp
  from DeduplicateNDArrayHandle_idempotent [of "[1, 2, 1, 3, 2]" "[2, 4 :: 64 word]"] ev
  show ?thesis by simp
qed

text \<open>
  C10: the read-set and the write-set produced by \<open>DeduplicateNDArrayHandle\<close> are each in
  strictly increasing handle order.
\<close>

theorem DeduplicateNDArrayHandle_strictly_sorted:
  "sorted_wrt (<) (fst (DeduplicateNDArrayHandle read_nds write_nds))
   \<and> sorted_wrt (<) (snd (DeduplicateNDArrayHandle read_nds write_nds))"
  using Dedup_fst_sorted [of read_nds write_nds] Dedup_snd_sorted [of read_nds write_nds]
    Dedup_fst_distinct [of read_nds write_nds] Dedup_snd_distinct [of read_nds write_nds]
  by (simp add: strict_sorted_iff)

theorem DeduplicateNDArrayHandle_strictly_sorted_witness:
  "DeduplicateNDArrayHandle [3, 2, 3, 1] [4, 2, 4 :: 64 word] = ([1, 3], [2, 4])
   \<and> sorted_wrt (<) [1, 3 :: 64 word] \<and> sorted_wrt (<) [2, 4 :: 64 word]"
proof -
  have ev: "DeduplicateNDArrayHandle [3, 2, 3, 1] [4, 2, 4 :: 64 word] = ([1, 3], [2, 4])"
    by code_simp
  from DeduplicateNDArrayHandle_strictly_sorted [of "[3, 2, 3, 1]" "[4, 2, 4 :: 64 word]"] ev
  show ?thesis by (simp del: sorted_wrt.simps)
qed

text \<open>
  C6: after a successful \<open>Init\<close> on a newly constructed functor, every position recorded
  in \<open>array_loc\<close> holds the DLPack-tensor tag \<open>kArrayHandle\<close>, and every other slot keeps its
  type code and its value; the recorded positions are the tensor slots. So the stored type
  codes differ from the input exactly at the positions in \<open>array_loc\<close> (the two tags being
  different codes). With the arguments (tensor, int64, float) only position 0 is retagged.
\<close>

theorem Init_retags_tensor_slots:
  assumes "Init K H self args const_loc const_nds mutate_nds w =
             (Inr (self', const_nds', mutate_nds'), w')"
    and "array_loc_f self = []"
  shows "(\<forall>p\<in>set (array_loc_f self').
            p < num_args args \<and> type_codes_f self' ! p = kArrayHandle K)
       \<and> (\<forall>p<num_args args. p \<notin> set (array_loc_f self') \<longrightarrow>
            type_codes_f self' ! p = type_codes args ! p \<and> values_f self' ! p = values args ! p)
       \<and> length (type_codes_f self') = num_args args
       \<and> length (values_f self') = num_args args
       \<and> set (array_loc_f self') =
            {p. p < num_args args \<and> type_codes args ! p = kTVMNDArrayTypeCode K}
       \<and> (kArrayHandle K \<noteq> kTVMNDArrayTypeCode K \<longrightarrow>
            {p. p < num_args args \<and> type_codes_f self' ! p \<noteq> type_codes args ! p}
              = set (array_loc_f self'))"
proof -
  note b = Init_buffers [OF assms]
  from b have wf: "wf_args args" by simp
  from b have loc: "set (array_loc_f self') =
      {p. p < num_args args \<and> type_codes args ! p = kTVMNDArrayTypeCode K}"
    by (auto simp: tensor_slots_def)
  from b have tc: "\<And>p. p < num_args args \<Longrightarrow> type_codes_f self' ! p =
      (if p \<in> set (array_loc_f self') then kArrayHandle K else type_codes args ! p)"
    by simp
  from b wf have vals: "values_f self' = take (num_args args) (values args)"
    and lens: "length (type_codes_f self') = num_args args" "length (values_f self') = num_args args"
    by (simp_all add: wf_args_def)
  have "\<forall>p\<in>set (array_loc_f self'). p < num_args args \<and> type_codes_f self' ! p = kArrayHandle K"
    using loc tc by auto
  moreover have "\<forall>p<num_args args. p \<notin> set (array_loc_f self') \<longrightarrow>
      type_codes_f self' ! p = type_codes args ! p \<and> values_f self' ! p = values args ! p"
    using tc vals by simp
  moreover have "kArrayHandle K \<noteq> kTVMNDArrayTypeCode K \<longrightarrow>
      {p. p < num_args args \<and> type_codes_f self' ! p \<noteq> type_codes args ! p}
        = set (array_loc_f self')"
  proof
    assume ne: "kArrayHandle K \<noteq> kTVMNDArrayTypeCode K"
    show "{p. p < num_args args \<and> type_codes_f self' ! p \<noteq> type_codes args ! p}
        = set (array_loc_f self')"
    proof (intro set_eqI iffI)
      fix p assume "p \<in> {p. p < num_args args \<and> type_codes_f self' ! p \<noteq> type_codes args ! p}"
      then show "p \<in> set (array_loc_f self')" using tc by (auto split: if_splits)
    next
      fix p assume p: "p \<in> set (array_loc_f self')"
      with loc have "p < num_args args" "type_codes args ! p = kTVMNDArrayTypeCode K" by auto
      with p tc [of p] ne
      show "p \<in> {p. p < num_args args \<and> type_codes_f self' ! p \<noteq> type_codes args ! p}"
        by simp
    qed
  qed
  ultimately show ?thesis using loc lens by blast
qed

theorem Init_retags_tensor_slots_witness:
  "Init ex_abi ex_host ex_functor ex_args_pod [] [] [] ex_world =
     (Inr (\<lparr>func_f = ex_func, fset_stream_f = set_stream, values_f = [0x10, 5, 0x4048F5C3],
            type_codes_f = [7, 0, 2], array_handle_f = [0x1010], array_loc_f = [0],
            ctx_f = \<lparr>dev_type = 2, dev_id = 0\<rparr>\<rparr>, [], [0x1010]),
      \<lparr>mach = \<lparr>ext = 2, DEV_ID = 0, STRM = 0\<rparr>,
       trace = [ShallowCopy 0x10 0x1010, GetContext 0x1010 2 0]\<rparr>)
   \<and> array_loc_f ex_functor = []
   \<and> {p. p < 3 \<and> [7, 0, 2 :: int] ! p \<noteq> type_codes ex_args_pod ! p} = {0}"
proof -
  have run: "Init ex_abi ex_host ex_functor ex_args_pod [] [] [] ex_world =
     (Inr (\<lparr>func_f = ex_func, fset_stream_f = set_stream, values_f = [0x10, 5, 0x4048F5C3],
            type_codes_f = [7, 0, 2], array_handle_f = [0x1010], array_loc_f = [0],
            ctx_f = \<lparr>dev_type = 2, dev_id = 0\<rparr>\<rparr>, [], [0x1010]),
      \<lparr>mach = \<lparr>ext = 2, DEV_ID = 0, STRM = 0\<rparr>,
       trace = [ShallowCopy 0x10 0x1010, GetContext 0x1010 2 0]\<rparr>)"
    by (simp add: ex_host_def ex_abi_def ex_world_def ex_args_pod_def ex_functor_def
          TVMFunctor_new_def Init_def Init_loop.simps Let_def call_MXShallowCopyNDArray_def
          call_MXNDArrayGetContext_def emit_def on_ext_def)
  have fresh: "array_loc_f ex_functor = []"
    by (simp add: ex_functor_def TVMFunctor_new_def)
  from Init_retags_tensor_slots [OF run fresh] run fresh show ?thesis
    by (simp add: ex_abi_def ex_args_pod_def)
qed

text \<open>
  C8: on well-formed arguments, if some slot carries a type code that is neither the
  framework-tensor code nor below the sentinel \<open>kTVMType\<close>, \<open>Init\<close> fails fatally: with the
  failed \<^verbatim>\<open>CHECK_LT\<close>, unless \<^verbatim>\<open>exit(-1)\<close> for an inconsistent context at an earlier slot has
  ended it first. Whenever the walk stands at such a slot, it ends there with the failed
  check, whatever it has collected so far. Conversely, when every non-tensor slot carries a
  code below the sentinel, \<open>Init\<close> never ends with the failed check.
\<close>

theorem Init_only_POD:
  assumes "wf_args args"
  shows "((\<exists>i<num_args args. type_codes args ! i \<noteq> kTVMNDArrayTypeCode K \<and>
                               \<not> type_codes args ! i < kTVMType K) \<longrightarrow>
            fst (Init K H self args const_loc const_nds mutate_nds w)
              = Inl (CheckFailed ''Only allow POD type in mxnet async call'')
          \<or> fst (Init K H self args const_loc const_nds mutate_nds w) = Inl (Exit (- 1)))
       \<and> (\<forall>i st w1. i < num_args args \<and> type_codes args ! i \<noteq> kTVMNDArrayTypeCode K \<and>
                               \<not> type_codes args ! i < kTVMType K \<longrightarrow>
            Init_loop K H args const_loc i st w1
              = (Inl (CheckFailed ''Only allow POD type in mxnet async call''), w1))
       \<and> ((\<forall>i<num_args args. type_codes args ! i \<noteq> kTVMNDArrayTypeCode K \<longrightarrow>
                               type_codes args ! i < kTVMType K) \<longrightarrow>
            (\<forall>m. fst (Init K H self args const_loc const_nds mutate_nds w) \<noteq> Inl (CheckFailed m)))"
proof -
  have branch: "Init_loop K H args const_loc i st w1
      = (Inl (CheckFailed ''Only allow POD type in mxnet async call''), w1)"
    if "i < num_args args" "type_codes args ! i \<noteq> kTVMNDArrayTypeCode K"
      "\<not> type_codes args ! i < kTVMType K" for i st w1
  proof -
    obtain s c cn mn where "st = (s, c, cn, mn)" by (rule prod_cases4)
    with that show ?thesis by (simp add: Init_loop_bad)
  qed
  obtain r w' where run: "Init K H self args const_loc const_nds mutate_nds w = (r, w')"
    by (cases "Init K H self args const_loc const_nds mutate_nds w")
  note c = Init_checked [OF run assms]
  note o = Init_outcomes [OF run]
  have "(\<exists>i<num_args args. type_codes args ! i \<noteq> kTVMNDArrayTypeCode K \<and>
            \<not> type_codes args ! i < kTVMType K) \<longrightarrow>
        r = Inl (CheckFailed ''Only allow POD type in mxnet async call'') \<or> r = Inl (Exit (- 1))"
    using c o by blast
  moreover have "(\<forall>i<num_args args. type_codes args ! i \<noteq> kTVMNDArrayTypeCode K \<longrightarrow>
            type_codes args ! i < kTVMType K) \<longrightarrow> (\<forall>m. r \<noteq> Inl (CheckFailed m))"
    using c by blast
  ultimately show ?thesis using branch by (simp add: run)
qed

theorem Init_only_POD_witness:
  "wf_args ex_args_bad \<and> wf_args ex_args_pod
   \<and> (1 < num_args ex_args_bad \<and> type_codes ex_args_bad ! 1 \<noteq> kTVMNDArrayTypeCode ex_abi
        \<and> \<not> type_codes ex_args_bad ! 1 < kTVMType ex_abi)
   \<and> fst (Init ex_abi ex_host ex_functor ex_args_bad [] [] [] ex_world)
        = Inl (CheckFailed ''Only allow POD type in mxnet async call'')
   \<and> list_all (\<lambda>i. type_codes ex_args_pod ! i \<noteq> kTVMNDArrayTypeCode ex_abi \<longrightarrow>
          type_codes ex_args_pod ! i < kTVMType ex_abi) [0..<num_args ex_args_pod]
   \<and> (\<forall>m. fst (Init ex_abi ex_host ex_functor ex_args_pod [] [] [] ex_world) \<noteq> Inl (CheckFailed m))"
proof -
  have wf1: "wf_args ex_args_bad" and wf2: "wf_args ex_args_pod"
    by (simp_all add: wf_args_def ex_args_bad_def ex_args_pod_def)
  have bad: "1 < num_args ex_args_bad \<and> type_codes ex_args_bad ! 1 \<noteq> kTVMNDArrayTypeCode ex_abi
        \<and> \<not> type_codes ex_args_bad ! 1 < kTVMType ex_abi"
    by (simp add: ex_args_bad_def ex_abi_def)
  have ok: "\<forall>i<num_args ex_args_pod. type_codes ex_args_pod ! i \<noteq> kTVMNDArrayTypeCode ex_abi \<longrightarrow>
          type_codes ex_args_pod ! i < kTVMType ex_abi"
    by (simp add: ex_args_pod_def ex_abi_def less_Suc_eq numeral_3_eq_3)
  have ev: "fst (Init ex_abi ex_host ex_functor ex_args_bad [] [] [] ex_world)
        = Inl (CheckFailed ''Only allow POD type in mxnet async call'')"
    by (simp add: ex_host_def ex_abi_def ex_world_def ex_args_bad_def ex_functor_def
          TVMFunctor_new_def Init_def Init_loop.simps Let_def call_MXShallowCopyNDArray_def
          call_MXNDArrayGetContext_def emit_def on_ext_def)
  from Init_only_POD [OF wf1, where K = ex_abi and H = ex_host and self = ex_functor
        and const_loc = "[]" and const_nds = "[]" and mutate_nds = "[]" and w = ex_world]
    Init_only_POD [OF wf2, where K = ex_abi and H = ex_host and self = ex_functor
        and const_loc = "[]" and const_nds = "[]" and mutate_nds = "[]" and w = ex_world]
    wf1 wf2 bad ok ev
  have "fst (Init ex_abi ex_host ex_functor ex_args_pod [] [] [] ex_world) \<noteq> Inl (CheckFailed m)"
    for m by blast
  moreover have "list_all (\<lambda>i. type_codes ex_args_pod ! i \<noteq> kTVMNDArrayTypeCode ex_abi \<longrightarrow>
          type_codes ex_args_pod ! i < kTVMType ex_abi) [0..<num_args ex_args_pod]"
    using ok by (simp add: list_all_iff)
  ultimately show ?thesis using wf1 wf2 bad ev by blast
qed

text \<open>
  C5: let the const positions be sorted and distinct, in range, and all refer to
  framework-tensor slots. Then a successful \<open>Init\<close> on a newly constructed functor appends
  the shallow copy made for the tensor at slot \<open>p\<close> to the read-set exactly when \<open>p\<close> is a
  const position (this is when the single cursor matches), and to the write-set otherwise.
  The copies are the handles that \<^verbatim>\<open>MXShallowCopyNDArray\<close> returned, in slot order. With
  const positions \<open>[0,1]\<close> over three tensors the provisional reads are the copies of the
  first two and the provisional writes the copy of the third.
\<close>

theorem Init_read_write_attribution:
  assumes "Init K H self args const_loc const_nds mutate_nds w =
             (Inr (self', const_nds', mutate_nds'), w')"
    and "array_handle_f self = []" and "array_loc_f self = []"
    and "sorted_wrt (<) const_loc"
    and "\<forall>p\<in>set const_loc. 0 \<le> p \<and> nat p < num_args args \<and>
                   type_codes args ! nat p = kTVMNDArrayTypeCode K"
  shows "array_loc_f self' = tensor_slots K args
       \<and> length (array_handle_f self') = length (array_loc_f self')
       \<and> filter is_ShallowCopy (new_events w w') =
           map (\<lambda>(h, p). ShallowCopy (values args ! p) h)
               (zip (array_handle_f self') (array_loc_f self'))
       \<and> const_nds' = const_nds @ map fst (filter (\<lambda>(h, p). int p \<in> set const_loc)
                               (zip (array_handle_f self') (array_loc_f self')))
       \<and> mutate_nds' = mutate_nds @ map fst (filter (\<lambda>(h, p). int p \<notin> set const_loc)
                               (zip (array_handle_f self') (array_loc_f self')))"
  using Init_attribution [OF assms] Init_buffers [OF assms(1,3)] by simp

theorem Init_read_write_attribution_witness:
  "Init ex_abi ex_host ex_functor ex_args_tensors [0, 1] [] [] ex_world =
     (Inr (\<lparr>func_f = ex_func, fset_stream_f = set_stream, values_f = [0x10, 0x11, 0x14],
            type_codes_f = [7, 7, 7], array_handle_f = [0x1010, 0x1011, 0x1014],
            array_loc_f = [0, 1, 2], ctx_f = \<lparr>dev_type = 2, dev_id = 0\<rparr>\<rparr>,
           [0x1010, 0x1011], [0x1014]),
      \<lparr>mach = \<lparr>ext = 6, DEV_ID = 0, STRM = 0\<rparr>,
       trace = [ShallowCopy 0x10 0x1010, GetContext 0x1010 2 0,
                ShallowCopy 0x11 0x1011, GetContext 0x1011 2 0,
                ShallowCopy 0x14 0x1014, GetContext 0x1014 2 0]\<rparr>)
   \<and> sorted_wrt (<) [0, 1 :: int]
   \<and> list_all (\<lambda>p. 0 \<le> p \<and> nat p < num_args ex_args_tensors \<and>
          type_codes ex_args_tensors ! nat p = kTVMNDArrayTypeCode ex_abi) [0, 1 :: int]
   \<and> tensor_slots ex_abi ex_args_tensors = [0, 1, 2]
   \<and> [0x1010, 0x1011 :: NDArrayHandle] =
        map fst (filter (\<lambda>(h, p). int p \<in> set [0, 1])
                   (zip [0x1010, 0x1011, 0x1014] [0, 1, 2 :: nat]))
   \<and> [0x1014 :: NDArrayHandle] =
        map fst (filter (\<lambda>(h, p). int p \<notin> set [0, 1])
                   (zip [0x1010, 0x1011, 0x1014] [0, 1, 2 :: nat]))"
proof -
  have run: "Init ex_abi ex_host ex_functor ex_args_tensors [0, 1] [] [] ex_world =
     (Inr (\<lparr>func_f = ex_func, fset_stream_f = set_stream, values_f = [0x10, 0x11, 0x14],
            type_codes_f = [7, 7, 7], array_handle_f = [0x1010, 0x1011, 0x1014],
            array_loc_f = [0, 1, 2], ctx_f = \<lparr>dev_type = 2, dev_id = 0\<rparr>\<rparr>,
           [0x1010, 0x1011], [0x1014]),
      \<lparr>mach = \<lparr>ext = 6, DEV_ID = 0, STRM = 0\<rparr>,
       trace = [ShallowCopy 0x10 0x1010, GetContext 0x1010 2 0,
                ShallowCopy 0x11 0x1011, GetContext 0x1011 2 0,
                ShallowCopy 0x14 0x1014, GetContext 0x1014 2 0]\<rparr>)"
    by (simp add: ex_host_def ex_abi_def ex_world_def ex_args_tensors_def ex_functor_def
          TVMFunctor_new_def Init_def Init_loop.simps Let_def call_MXShallowCopyNDArray_def
          call_MXNDArrayGetContext_def emit_def on_ext_def)
  have f1: "array_handle_f ex_functor = []" and f2: "array_loc_f ex_functor = []"
    by (simp_all add: ex_functor_def TVMFunctor_new_def)
  have s: "sorted_wrt (<) [0, 1 :: int]" by simp
  have sl: "\<forall>p\<in>set [0, 1 :: int]. 0 \<le> p \<and> nat p < num_args ex_args_tensors \<and>
          type_codes ex_args_tensors ! nat p = kTVMNDArrayTypeCode ex_abi"
    by (simp add: ex_args_tensors_def ex_abi_def)
  have ts: "tensor_slots ex_abi ex_args_tensors = [0, 1, 2]"
    using Init_read_write_attribution [OF run f1 f2 s sl] by simp
  have rd: "[0x1010, 0x1011 :: NDArrayHandle] =
        map fst (filter (\<lambda>(h, p). int p \<in> set [0, 1])
                   (zip [0x1010, 0x1011, 0x1014] [0, 1, 2 :: nat]))"
    by simp
  have wr: "[0x1014 :: NDArrayHandle] =
        map fst (filter (\<lambda>(h, p). int p \<notin> set [0, 1])
                   (zip [0x1010, 0x1011, 0x1014] [0, 1, 2 :: nat]))"
    by simp
  have sl': "list_all (\<lambda>p. 0 \<le> p \<and> nat p < num_args ex_args_tensors \<and>
          type_codes ex_args_tensors ! nat p = kTVMNDArrayTypeCode ex_abi) [0, 1 :: int]"
    using sl by (simp only: list_all_iff)
  from run s sl' ts rd wr show ?thesis by blast
qed



text \<open>
  C2, as amended: take a wrapped call on well-formed arguments in which some tensor argument
  reports a device context different from the one reported by the tensor argument before
  it, the earlier one with a device id other than \<open>-1\<close>, and in which every slot before the
  later tensor is a tensor or carries a code below the sentinel. Then \<open>Init\<close> prints the
  message with the two contexts of such a pair of neighbours and ends the process by
  \<^verbatim>\<open>exit(-1)\<close>, and no \<^verbatim>\<open>push_sync\<close> is issued.
\<close>

theorem wrapped_inconsistent_context:
  assumes "wrapped K H f fset_stream const_loc args w = (r, w')"
    and "wf_args args"
    and "cs = reported_contexts K H args (ext (mach w))"
    and "Suc k < length cs"
    and "snd (cs ! k) \<noteq> - 1" and "cs ! Suc k \<noteq> cs ! k"
    and "\<forall>i<tensor_slots K args ! Suc k. slot_ok K args i"
  shows "r = Inl (Exit (- 1))
       \<and> (\<forall>e\<in>set (new_events w w'). \<not> is_PushSync e)
       \<and> (\<exists>pre nd j. Suc j < length cs \<and> snd (cs ! j) \<noteq> - 1 \<and> cs ! Suc j \<noteq> cs ! j
             \<and> new_events w w' = pre @
                 [GetContext nd (fst (cs ! Suc j)) (snd (cs ! Suc j)),
                  StdOut (inconsistent_context_msg
                    \<lparr>dev_type = fst (cs ! j), dev_id = snd (cs ! j)\<rparr>
                    (fst (cs ! Suc j)) (snd (cs ! Suc j)))])"
proof -
  let ?self = "TVMFunctor_new f fset_stream (uninitialised_ctx H (ext (mach w)))"
  let ?P = "\<lambda>p. type_codes args ! p = kTVMNDArrayTypeCode K"
  let ?ok = "successively (\<lambda>a b. \<not> clash a b)"
  obtain r1 w1 where init: "Init K H ?self args const_loc [] [] w = (r1, w1)"
    by (cases "Init K H ?self args const_loc [] [] w")
  have cl: "clash (cs ! k) (cs ! Suc k)" using assms(5,6) by (simp add: clash_def)
  have len_cs: "length cs = length (tensor_slots K args)"
    by (simp add: assms(3) reported_contexts_def)
  from Init_probe [OF init assms(2), folded assms(3)]
  obtain evs where evs: "trace w1 = trace w @ evs" "\<forall>e\<in>set evs. \<not> is_PushSync e"
    "(\<exists>s. r1 = Inr s) \<longrightarrow> reported evs = cs \<and> ?ok (reported evs)"
    "r1 = Inl (CheckFailed ''Only allow POD type in mxnet async call'') \<longrightarrow>
        (\<exists>i<num_args args. \<not> slot_ok K args i
           \<and> reported evs = take (length (filter ?P [0..<i])) cs)
      \<and> ?ok (reported evs)"
    "r1 = Inl (Exit (- 1)) \<longrightarrow>
        (\<exists>pre nd j. Suc j < length cs \<and> clash (cs ! j) (cs ! Suc j)
           \<and> evs = pre @
               [GetContext nd (fst (cs ! Suc j)) (snd (cs ! Suc j)),
                StdOut (inconsistent_context_msg
                  \<lparr>dev_type = fst (cs ! j), dev_id = snd (cs ! j)\<rparr>
                  (fst (cs ! Suc j)) (snd (cs ! Suc j)))])"
    by blast
  have not_ret: "\<not> (\<exists>s. r1 = Inr s)"
  proof
    assume "\<exists>s. r1 = Inr s"
    with evs(3) have "?ok cs" by auto
    with assms(4) have "\<not> clash (cs ! k) (cs ! Suc k)"
      by (simp add: successively_conv_nth)
    with cl show False by simp
  qed
  have not_check: "r1 \<noteq> Inl (CheckFailed ''Only allow POD type in mxnet async call'')"
  proof
    assume "r1 = Inl (CheckFailed ''Only allow POD type in mxnet async call'')"
    with evs(4) obtain i where i: "i < num_args args" "\<not> slot_ok K args i"
      "reported evs = take (length (filter ?P [0..<i])) cs" and ok: "?ok (reported evs)"
      by blast
    let ?t = "tensor_slots K args ! Suc k"
    from assms(4) len_cs have "?t \<in> set (tensor_slots K args)" by simp
    then have "slot_ok K args ?t" by (simp add: tensor_slots_def slot_ok_def)
    with i(2) have "i \<noteq> ?t" by auto
    moreover from assms(7) i(2) have "\<not> i < ?t" by auto
    ultimately have "?t < i" by simp
    moreover from assms(4) len_cs have "Suc k < length (filter ?P [0..<num_args args])"
      by (simp add: tensor_slots_def)
    ultimately have sk: "Suc k < length (filter ?P [0..<i])"
      using i(1) tensors_before [of i "num_args args" "Suc k" ?P]
      by (simp add: tensor_slots_def)
    with assms(4) i(3) have "Suc k < length (reported evs)"
      "reported evs ! k = cs ! k" "reported evs ! Suc k = cs ! Suc k"
      by simp_all
    with ok have "\<not> clash (cs ! k) (cs ! Suc k)"
      by (auto simp: successively_conv_nth)
    with cl show False by simp
  qed
  from Init_checked [OF init assms(2)] have "r1 \<noteq> Inl OutOfBounds" by simp
  with Init_outcomes [OF init] not_ret not_check have exit: "r1 = Inl (Exit (- 1))"
    by blast
  with assms(1) init have "r = Inl (Exit (- 1))" "w' = w1" by (simp_all add: wrapped_Init)
  with evs(1) have ne: "new_events w w' = evs" by (simp add: new_events_def)
  from evs(5) exit obtain pre nd j where j: "Suc j < length cs" "clash (cs ! j) (cs ! Suc j)"
    "evs = pre @
               [GetContext nd (fst (cs ! Suc j)) (snd (cs ! Suc j)),
                StdOut (inconsistent_context_msg
                  \<lparr>dev_type = fst (cs ! j), dev_id = snd (cs ! j)\<rparr>
                  (fst (cs ! Suc j)) (snd (cs ! Suc j)))]"
    by blast
  from j(2) have "snd (cs ! j) \<noteq> - 1" "cs ! Suc j \<noteq> cs ! j" by (simp_all add: clash_def)
  with j(1,3) have "\<exists>pre nd j. Suc j < length cs \<and> snd (cs ! j) \<noteq> - 1 \<and> cs ! Suc j \<noteq> cs ! j
             \<and> evs = pre @
                 [GetContext nd (fst (cs ! Suc j)) (snd (cs ! Suc j)),
                  StdOut (inconsistent_context_msg
                    \<lparr>dev_type = fst (cs ! j), dev_id = snd (cs ! j)\<rparr>
                    (fst (cs ! Suc j)) (snd (cs ! Suc j)))]"
    by blast
  with evs(2) \<open>r = Inl (Exit (- 1))\<close> show ?thesis unfolding ne by simp
qed

theorem wrapped_inconsistent_context_witness:
  "wrapped ex_abi ex_host ex_func set_stream [0] ex_args_two_gpus ex_world =
     (Inl (Exit (- 1)),
      \<lparr>mach = \<lparr>ext = 4, DEV_ID = 0, STRM = 0\<rparr>,
       trace = [ShallowCopy 0x10 0x1010, GetContext 0x1010 2 0,
                ShallowCopy 0x12 0x1012, GetContext 0x1012 2 1,
                StdOut ''Inconsistent context: source(2:0) vs target: (2:1)'']\<rparr>)
   \<and> wf_args ex_args_two_gpus
   \<and> reported_contexts ex_abi ex_host ex_args_two_gpus (ext (mach ex_world)) = [(2, 0), (2, 1)]
   \<and> tensor_slots ex_abi ex_args_two_gpus = [0, 1]
   \<and> slot_ok ex_abi ex_args_two_gpus 0
   \<and> list_all (\<lambda>e. \<not> is_PushSync e)
        (new_events ex_world (snd (wrapped ex_abi ex_host ex_func set_stream [0]
                                     ex_args_two_gpus ex_world)))"
proof -
  let ?w' = "snd (wrapped ex_abi ex_host ex_func set_stream [0] ex_args_two_gpus ex_world)"
  let ?cs = "[(2, 0), (2, 1)] :: (int \<times> int) list"
  have run: "wrapped ex_abi ex_host ex_func set_stream [0] ex_args_two_gpus ex_world
               = (Inl (Exit (- 1)), ?w')"
    by (simp add: run_two_gpus)
  have wf: "wf_args ex_args_two_gpus"
    by (simp add: wf_args_def ex_args_two_gpus_def)
  have cs: "?cs = reported_contexts ex_abi ex_host ex_args_two_gpus (ext (mach ex_world))"
    by (simp add: contexts_two_gpus)
  have ts: "tensor_slots ex_abi ex_args_two_gpus = [0, 1]"
    by code_simp
  have ok0: "slot_ok ex_abi ex_args_two_gpus 0"
    by (simp add: slot_ok_def ex_abi_def ex_args_two_gpus_def)
  have h1: "Suc 0 < length ?cs" by simp
  have h2: "snd (?cs ! 0) \<noteq> - 1" by simp
  have h3: "?cs ! Suc 0 \<noteq> ?cs ! 0" by simp
  have h4: "\<forall>i<tensor_slots ex_abi ex_args_two_gpus ! Suc 0. slot_ok ex_abi ex_args_two_gpus i"
    using ok0 by (simp add: ts)
  from wrapped_inconsistent_context [OF run wf cs h1 h2 h3 h4]
  have "\<forall>e\<in>set (new_events ex_world ?w'). \<not> is_PushSync e" by blast
  then have "list_all (\<lambda>e. \<not> is_PushSync e) (new_events ex_world ?w')"
    by (simp only: list_all_iff)
  with run_two_gpus wf contexts_two_gpus ts ok0 show ?thesis by blast
qed

text \<open>
  C2 as stated fails at two calls. In the first, two tensors report the contexts (3, -1) and
  (2, 1), which differ: the wrapped call prints nothing, returns, and issues \<^verbatim>\<open>push_sync\<close>,
  because the test of line 98 takes the device id \<open>-1\<close> of the first tensor for "no context
  yet". In the second, the tensors at slots 0 and 2 report (2, 0) and (2, 1), and slot 1
  carries the code 9: the call ends with the failed \<^verbatim>\<open>CHECK_LT\<close> at slot 1, before the second
  tensor is looked at, and prints no message about contexts.
\<close>

theorem wrapped_inconsistent_context_counterexample:
  "reported_contexts ex_abi ex_host ex_args_minus_one (ext (mach ex_world)) = [(3, - 1), (2, 1)]
   \<and> (3 :: int, - 1 :: int) \<noteq> (2, 1)
   \<and> \<not> isl (fst (wrapped ex_abi ex_host ex_func set_stream [0] ex_args_minus_one ex_world))
   \<and> trace (snd (wrapped ex_abi ex_host ex_func set_stream [0] ex_args_minus_one ex_world))
     = [ShallowCopy 0x13 0x1013, GetContext 0x1013 3 (- 1),
        ShallowCopy 0x12 0x1012, GetContext 0x1012 2 1,
        PushSync \<lparr>dev_type = 2, dev_id = 1\<rparr> [0x1013] [0x1012]]
   \<and> reported_contexts ex_abi ex_host ex_args_gpus_bad (ext (mach ex_world)) = [(2, 0), (2, 1)]
   \<and> (2 :: int, 0 :: int) \<noteq> (2, 1)
   \<and> fst (wrapped ex_abi ex_host ex_func set_stream [0] ex_args_gpus_bad ex_world)
     = Inl (CheckFailed ''Only allow POD type in mxnet async call'')
   \<and> trace (snd (wrapped ex_abi ex_host ex_func set_stream [0] ex_args_gpus_bad ex_world))
     = [ShallowCopy 0x10 0x1010, GetContext 0x1010 2 0]"
proof -
  have a: "\<not> isl (fst (wrapped ex_abi ex_host ex_func set_stream [0] ex_args_minus_one ex_world))
   \<and> trace (snd (wrapped ex_abi ex_host ex_func set_stream [0] ex_args_minus_one ex_world))
     = [ShallowCopy 0x13 0x1013, GetContext 0x1013 3 (- 1),
        ShallowCopy 0x12 0x1012, GetContext 0x1012 2 1,
        PushSync \<lparr>dev_type = 2, dev_id = 1\<rparr> [0x1013] [0x1012]]"
    by (simp add: wrapped_def ex_host_def ex_abi_def ex_world_def ex_args_minus_one_def
        TVMFunctor_new_def Init_def Init_loop.simps Let_def call_MXShallowCopyNDArray_def
        call_MXNDArrayGetContext_def call_MXEnginePushSyncND_def emit_def on_ext_def
        dedup_minus_one)
  have b: "fst (wrapped ex_abi ex_host ex_func set_stream [0] ex_args_gpus_bad ex_world)
     = Inl (CheckFailed ''Only allow POD type in mxnet async call'')
   \<and> trace (snd (wrapped ex_abi ex_host ex_func set_stream [0] ex_args_gpus_bad ex_world))
     = [ShallowCopy 0x10 0x1010, GetContext 0x1010 2 0]"
    by (simp add: wrapped_def ex_host_def ex_abi_def ex_world_def ex_args_gpus_bad_def
        TVMFunctor_new_def Init_def Init_loop.simps Let_def call_MXShallowCopyNDArray_def
        call_MXNDArrayGetContext_def emit_def on_ext_def)
  from a b contexts_minus_one contexts_gpus_bad show ?thesis by simp
qed

text \<open>
  C4, as amended: take a \<open>Run\<close> on a functor as \<open>Init\<close> leaves it. Let the host produce the
  managed tensors \<open>dlms\<close>, let \<open>vs\<close> be the value buffer with their addresses written in,
  \<open>strm\<close> the pointer loaded from the address \<open>stream\<close> of the run context, and \<open>dev\<close> the
  device id of the run context. If the functor's device type is GPU and the user
  function, called in the state that the stream setter has left, returns, then the calls
  of the setter and of the user function are, in order: the setter with DLPack's GPU
  device type, \<open>dev\<close> and \<open>strm\<close>; the user function; the setter with the same device and the
  null stream; and the final state is the one the second setter call leaves, after the
  deleters. If the device type is not GPU, as for CPU, the only such call is the one of
  the user function, in the state after the first loop, whether it returns or throws.
\<close>

theorem Run_stream_binding:
  assumes "functor_wf self"
    and "to_dlpack_all H (array_handle_f self) (ext (mach w)) = (dlms, e1)"
    and "m1 = (mach w)\<lparr>ext := e1\<rparr>"
    and "vs = bind_values K (values_f self) (array_loc_f self) dlms"
    and "strm = load_ptr H (stream rctx) e1"
    and "dev = Context.dev_id (RunContext.ctx rctx)"
  shows "(Context.dev_type (ctx_f self) = kGPU \<longrightarrow>
           (\<forall>m3. func_f self vs (type_codes_f self)
                    (fset_stream_f self (kDLGPU K) dev strm m1) = Returned m3 \<longrightarrow>
                fst (Run K H self rctx w) = Inr (self\<lparr>values_f := vs\<rparr>)
              \<and> filter (\<lambda>e. is_SetStream e \<or> is_CallPacked e)
                   (new_events w (snd (Run K H self rctx w))) =
                  [SetStream (kDLGPU K) dev strm, CallPacked vs (type_codes_f self),
                   SetStream (kDLGPU K) dev 0]
              \<and> mach (snd (Run K H self rctx w)) =
                  run_deleters H dlms (fset_stream_f self (kDLGPU K) dev 0 m3)))
       \<and> (Context.dev_type (ctx_f self) \<noteq> kGPU \<longrightarrow>
           (\<forall>m3. func_f self vs (type_codes_f self) m1 = Returned m3 \<longrightarrow>
                fst (Run K H self rctx w) = Inr (self\<lparr>values_f := vs\<rparr>)
              \<and> filter (\<lambda>e. is_SetStream e \<or> is_CallPacked e)
                   (new_events w (snd (Run K H self rctx w))) =
                  [CallPacked vs (type_codes_f self)]
              \<and> mach (snd (Run K H self rctx w)) = run_deleters H dlms m3)
         \<and> (\<forall>m3. func_f self vs (type_codes_f self) m1 = Threw m3 \<longrightarrow>
                fst (Run K H self rctx w) = Inl Thrown
              \<and> filter (\<lambda>e. is_SetStream e \<or> is_CallPacked e)
                   (new_events w (snd (Run K H self rctx w))) =
                  [CallPacked vs (type_codes_f self)]
              \<and> mach (snd (Run K H self rctx w)) = m3))
       \<and> kCPU \<noteq> kGPU"
proof -
  have gpu: "fst (Run K H self rctx w) = Inr (self\<lparr>values_f := vs\<rparr>)
              \<and> filter (\<lambda>e. is_SetStream e \<or> is_CallPacked e)
                   (new_events w (snd (Run K H self rctx w))) =
                  [SetStream (kDLGPU K) dev strm, CallPacked vs (type_codes_f self),
                   SetStream (kDLGPU K) dev 0]
              \<and> mach (snd (Run K H self rctx w)) =
                  run_deleters H dlms (fset_stream_f self (kDLGPU K) dev 0 m3)"
    if g: "Context.dev_type (ctx_f self) = kGPU"
      and ret: "func_f self vs (type_codes_f self)
                  (fset_stream_f self (kDLGPU K) dev strm m1) = Returned m3" for m3
  proof -
    from g have c: "fset_stream_f self (kDLGPU K) dev strm m1 =
        (if Context.dev_type (ctx_f self) = kGPU
         then fset_stream_f self (kDLGPU K) dev strm m1 else m1)" by simp
    from Run_returns [OF assms c ret] g show ?thesis by (simp add: new_events_def)
  qed
  have cpu: "fst (Run K H self rctx w) = Inr (self\<lparr>values_f := vs\<rparr>)
              \<and> filter (\<lambda>e. is_SetStream e \<or> is_CallPacked e)
                   (new_events w (snd (Run K H self rctx w))) =
                  [CallPacked vs (type_codes_f self)]
              \<and> mach (snd (Run K H self rctx w)) = run_deleters H dlms m3"
    if g: "Context.dev_type (ctx_f self) \<noteq> kGPU"
      and ret: "func_f self vs (type_codes_f self) m1 = Returned m3" for m3
  proof -
    from g have c: "m1 =
        (if Context.dev_type (ctx_f self) = kGPU
         then fset_stream_f self (kDLGPU K) dev strm m1 else m1)" by simp
    from Run_returns [OF assms c ret] g show ?thesis by (simp add: new_events_def)
  qed
  have cpu_thr: "fst (Run K H self rctx w) = Inl Thrown
              \<and> filter (\<lambda>e. is_SetStream e \<or> is_CallPacked e)
                   (new_events w (snd (Run K H self rctx w))) =
                  [CallPacked vs (type_codes_f self)]
              \<and> mach (snd (Run K H self rctx w)) = m3"
    if g: "Context.dev_type (ctx_f self) \<noteq> kGPU"
      and thr: "func_f self vs (type_codes_f self) m1 = Threw m3" for m3
  proof -
    from g have c: "m1 =
        (if Context.dev_type (ctx_f self) = kGPU
         then fset_stream_f self (kDLGPU K) dev strm m1 else m1)" by simp
    from Run_throws [OF assms c thr] g show ?thesis by (simp add: new_events_def)
  qed
  have "kCPU \<noteq> kGPU" by (simp add: kCPU_def kGPU_def)
  with gpu cpu cpu_thr show ?thesis by blast
qed

theorem Run_stream_binding_witness:
  "functor_wf ex_functor_gpu
   \<and> to_dlpack_all ex_host (array_handle_f ex_functor_gpu) (ext (mach ex_world))
       = ([0x21010, 0x21011], 2)
   \<and> Context.dev_type (ctx_f ex_functor_gpu) = kGPU
   \<and> func_f ex_functor_gpu [0x21010, 5, 0x21011] (type_codes_f ex_functor_gpu)
        (fset_stream_f ex_functor_gpu (kDLGPU ex_abi) 0 0x5555 \<lparr>ext = 2, DEV_ID = 0, STRM = 0\<rparr>)
       = Returned \<lparr>ext = 3, DEV_ID = 0, STRM = 0x5555\<rparr>
   \<and> filter (\<lambda>e. is_SetStream e \<or> is_CallPacked e)
        (new_events ex_world (snd (Run ex_abi ex_host ex_functor_gpu ex_rctx ex_world))) =
       [SetStream 2 0 0x5555, CallPacked [0x21010, 5, 0x21011] [7, 0, 7], SetStream 2 0 0]
   \<and> mach (snd (Run ex_abi ex_host ex_functor_gpu ex_rctx ex_world))
       = run_deleters ex_host [0x21010, 0x21011]
           (fset_stream_f ex_functor_gpu (kDLGPU ex_abi) 0 0 \<lparr>ext = 3, DEV_ID = 0, STRM = 0x5555\<rparr>)
   \<and> mach (snd (Run ex_abi ex_host ex_functor_gpu ex_rctx ex_world))
       = \<lparr>ext = 5, DEV_ID = 0, STRM = 0\<rparr>"
proof -
  have g: "Context.dev_type (ctx_f ex_functor_gpu) = kGPU"
    by (simp add: ex_functor_gpu_def kGPU_def)
  have m1: "\<lparr>ext = 2, DEV_ID = 0, STRM = 0\<rparr> = (mach ex_world)\<lparr>ext := 2\<rparr>"
    by (simp add: ex_world_def)
  have vs: "[0x21010, 5, 0x21011] =
      bind_values ex_abi (values_f ex_functor_gpu) (array_loc_f ex_functor_gpu) [0x21010, 0x21011]"
    by (simp add: bind_values_def ex_functor_gpu_def ex_abi_def)
  have strm: "0x5555 = load_ptr ex_host (stream ex_rctx) 2"
    by (simp add: ex_host_def)
  have dev: "0 = Context.dev_id (RunContext.ctx ex_rctx)"
    by (simp add: ex_rctx_def)
  have ret: "func_f ex_functor_gpu [0x21010, 5, 0x21011] (type_codes_f ex_functor_gpu)
        (fset_stream_f ex_functor_gpu (kDLGPU ex_abi) 0 0x5555 \<lparr>ext = 2, DEV_ID = 0, STRM = 0\<rparr>)
       = Returned \<lparr>ext = 3, DEV_ID = 0, STRM = 0x5555\<rparr>"
    by (simp add: ex_functor_gpu_def ex_func_def set_stream_def)
  from Run_stream_binding [OF ex_wf(1) ex_produced(1) m1 vs strm dev] g ret
  have "filter (\<lambda>e. is_SetStream e \<or> is_CallPacked e)
        (new_events ex_world (snd (Run ex_abi ex_host ex_functor_gpu ex_rctx ex_world))) =
       [SetStream (kDLGPU ex_abi) 0 0x5555,
        CallPacked [0x21010, 5, 0x21011] (type_codes_f ex_functor_gpu),
        SetStream (kDLGPU ex_abi) 0 0]
     \<and> mach (snd (Run ex_abi ex_host ex_functor_gpu ex_rctx ex_world))
       = run_deleters ex_host [0x21010, 0x21011]
           (fset_stream_f ex_functor_gpu (kDLGPU ex_abi) 0 0 \<lparr>ext = 3, DEV_ID = 0, STRM = 0x5555\<rparr>)"
    by blast
  then have "filter (\<lambda>e. is_SetStream e \<or> is_CallPacked e)
        (new_events ex_world (snd (Run ex_abi ex_host ex_functor_gpu ex_rctx ex_world))) =
       [SetStream 2 0 0x5555, CallPacked [0x21010, 5, 0x21011] [7, 0, 7], SetStream 2 0 0]"
    and "mach (snd (Run ex_abi ex_host ex_functor_gpu ex_rctx ex_world))
       = run_deleters ex_host [0x21010, 0x21011]
           (fset_stream_f ex_functor_gpu (kDLGPU ex_abi) 0 0 \<lparr>ext = 3, DEV_ID = 0, STRM = 0x5555\<rparr>)"
    by (simp_all add: ex_abi_def ex_functor_gpu_def)
  with ex_wf(1) ex_produced(1) g ret run_gpu(2) show ?thesis by blast
qed

text \<open>
  C4 as stated fails at two runs of a functor whose context is (GPU, 0). With a run context
  on device 1 the stream setter is called with the device id 1 of the run context, not with
  the id 0 of the functor's context. With a user function that throws, the stream setter is
  called once: \<open>Run\<close> is left before the call with the null stream.
\<close>

theorem Run_stream_binding_counterexample:
  "Context.dev_type (ctx_f ex_functor_gpu) = kGPU
   \<and> Context.dev_id (ctx_f ex_functor_gpu) = 0
   \<and> filter (\<lambda>e. is_SetStream e \<or> is_CallPacked e)
        (new_events ex_world (snd (Run ex_abi ex_host ex_functor_gpu ex_rctx_gpu1 ex_world))) =
       [SetStream 2 1 0x5555, CallPacked [0x21010, 5, 0x21011] [7, 0, 7], SetStream 2 1 0]
   \<and> Context.dev_type (ctx_f ex_functor_throw) = kGPU
   \<and> fst (Run ex_abi ex_host ex_functor_throw ex_rctx ex_world) = Inl Thrown
   \<and> filter is_SetStream
        (new_events ex_world (snd (Run ex_abi ex_host ex_functor_throw ex_rctx ex_world))) =
       [SetStream 2 0 0x5555]"
  by (simp add: run_gpu1 run_throw)
     (simp add: ex_functor_gpu_def ex_functor_throw_def kGPU_def)

text \<open>
  C7, as amended: take a \<open>Run\<close> on a functor as \<open>Init\<close> leaves it, in which the user function
  returns. The host produces one managed tensor per stored handle, in order; \<open>Run\<close> returns;
  what it adds to the trace is one \<^verbatim>\<open>MXNDArrayToDLPack\<close> call per stored handle, then the call
  of the user function (on GPU between the two calls of the stream setter), then one
  deleter call for each managed tensor produced, and nothing after these; and the final
  host state is the state after the user function (and the second setter call) with the
  deleter of each managed tensor applied once, in order.
\<close>

theorem Run_managed_tensors:
  assumes "functor_wf self"
    and "to_dlpack_all H (array_handle_f self) (ext (mach w)) = (dlms, e1)"
    and "m1 = (mach w)\<lparr>ext := e1\<rparr>"
    and "vs = bind_values K (values_f self) (array_loc_f self) dlms"
    and "strm = load_ptr H (stream rctx) e1"
    and "dev = Context.dev_id (RunContext.ctx rctx)"
    and "m_call = (if Context.dev_type (ctx_f self) = kGPU
                   then fset_stream_f self (kDLGPU K) dev strm m1 else m1)"
    and "func_f self vs (type_codes_f self) m_call = Returned m3"
    and "m_after = (if Context.dev_type (ctx_f self) = kGPU
                    then fset_stream_f self (kDLGPU K) dev 0 m3 else m3)"
  shows "fst (Run K H self rctx w) = Inr (self\<lparr>values_f := vs\<rparr>)
       \<and> length dlms = length (array_handle_f self)
       \<and> new_events w (snd (Run K H self rctx w)) =
           map (\<lambda>(h, dlm). ToDLPack h dlm) (zip (array_handle_f self) dlms)
           @ (if Context.dev_type (ctx_f self) = kGPU
              then [SetStream (kDLGPU K) dev strm, CallPacked vs (type_codes_f self),
                    SetStream (kDLGPU K) dev 0]
              else [CallPacked vs (type_codes_f self)])
           @ map Deleter dlms
       \<and> mach (snd (Run K H self rctx w)) = run_deleters H dlms m_after
       \<and> ext (mach (snd (Run K H self rctx w))) =
           foldl (\<lambda>e dlm. dlm_deleter H dlm e) (ext m_after) dlms"
proof -
  note r = Run_returns [OF assms(1-8)]
  from r have m: "mach (snd (Run K H self rctx w)) = run_deleters H dlms m_after"
    by (simp add: assms(9))
  then have "ext (mach (snd (Run K H self rctx w))) =
           foldl (\<lambda>e dlm. dlm_deleter H dlm e) (ext m_after) dlms"
    by (simp add: ext_run_deleters)
  with r m length_to_dlpack_all [OF assms(2)] show ?thesis
    by (simp add: new_events_def)
qed

theorem Run_managed_tensors_witness:
  "functor_wf ex_functor_gpu
   \<and> to_dlpack_all ex_host (array_handle_f ex_functor_gpu) (ext (mach ex_world))
       = ([0x21010, 0x21011], 2)
   \<and> func_f ex_functor_gpu [0x21010, 5, 0x21011] (type_codes_f ex_functor_gpu)
        (fset_stream_f ex_functor_gpu (kDLGPU ex_abi) 0 0x5555 \<lparr>ext = 2, DEV_ID = 0, STRM = 0\<rparr>)
       = Returned \<lparr>ext = 3, DEV_ID = 0, STRM = 0x5555\<rparr>
   \<and> new_events ex_world (snd (Run ex_abi ex_host ex_functor_gpu ex_rctx ex_world)) =
       [ToDLPack 0x1010 0x21010, ToDLPack 0x1011 0x21011,
        SetStream 2 0 0x5555, CallPacked [0x21010, 5, 0x21011] [7, 0, 7], SetStream 2 0 0,
        Deleter 0x21010, Deleter 0x21011]
   \<and> ext (mach (snd (Run ex_abi ex_host ex_functor_gpu ex_rctx ex_world))) =
        foldl (\<lambda>e dlm. dlm_deleter ex_host dlm e) 3 [0x21010, 0x21011]
   \<and> ext (mach (snd (Run ex_abi ex_host ex_functor_gpu ex_rctx ex_world))) = 5"
proof -
  have g: "Context.dev_type (ctx_f ex_functor_gpu) = kGPU"
    by (simp add: ex_functor_gpu_def kGPU_def)
  have m1: "\<lparr>ext = 2, DEV_ID = 0, STRM = 0\<rparr> = (mach ex_world)\<lparr>ext := 2\<rparr>"
    by (simp add: ex_world_def)
  have vs: "[0x21010, 5, 0x21011] =
      bind_values ex_abi (values_f ex_functor_gpu) (array_loc_f ex_functor_gpu) [0x21010, 0x21011]"
    by (simp add: bind_values_def ex_functor_gpu_def ex_abi_def)
  have strm: "0x5555 = load_ptr ex_host (stream ex_rctx) 2"
    by (simp add: ex_host_def)
  have dev: "0 = Context.dev_id (RunContext.ctx ex_rctx)"
    by (simp add: ex_rctx_def)
  have call: "fset_stream_f ex_functor_gpu (kDLGPU ex_abi) 0 0x5555 \<lparr>ext = 2, DEV_ID = 0, STRM = 0\<rparr>
      = (if Context.dev_type (ctx_f ex_functor_gpu) = kGPU
         then fset_stream_f ex_functor_gpu (kDLGPU ex_abi) 0 0x5555 \<lparr>ext = 2, DEV_ID = 0, STRM = 0\<rparr>
         else \<lparr>ext = 2, DEV_ID = 0, STRM = 0\<rparr>)"
    using g by simp
  have ret: "func_f ex_functor_gpu [0x21010, 5, 0x21011] (type_codes_f ex_functor_gpu)
        (fset_stream_f ex_functor_gpu (kDLGPU ex_abi) 0 0x5555 \<lparr>ext = 2, DEV_ID = 0, STRM = 0\<rparr>)
       = Returned \<lparr>ext = 3, DEV_ID = 0, STRM = 0x5555\<rparr>"
    by (simp add: ex_functor_gpu_def ex_func_def set_stream_def)
  have after: "\<lparr>ext = 3, DEV_ID = 0, STRM = 0\<rparr>
      = (if Context.dev_type (ctx_f ex_functor_gpu) = kGPU
         then fset_stream_f ex_functor_gpu (kDLGPU ex_abi) 0 0 \<lparr>ext = 3, DEV_ID = 0, STRM = 0x5555\<rparr>
         else \<lparr>ext = 3, DEV_ID = 0, STRM = 0x5555\<rparr>)"
    using g by (simp add: ex_functor_gpu_def set_stream_def)
  from Run_managed_tensors [OF ex_wf(1) ex_produced(1) m1 vs strm dev call ret after]
  have "ext (mach (snd (Run ex_abi ex_host ex_functor_gpu ex_rctx ex_world))) =
        foldl (\<lambda>e dlm. dlm_deleter ex_host dlm e) (ext \<lparr>ext = 3, DEV_ID = 0, STRM = 0\<rparr>)
          [0x21010, 0x21011]"
    by blast
  then have "ext (mach (snd (Run ex_abi ex_host ex_functor_gpu ex_rctx ex_world))) =
        foldl (\<lambda>e dlm. dlm_deleter ex_host dlm e) 3 [0x21010, 0x21011]"
    by (simp del: foldl_Cons)
  moreover from this
  have "ext (mach (snd (Run ex_abi ex_host ex_functor_gpu ex_rctx ex_world))) = 5"
    by (simp add: ex_host_def)
  ultimately show ?thesis using ex_wf(1) ex_produced(1) ret run_gpu(1) by simp
qed

text \<open>
  C7 as stated fails at a run whose user function throws: two managed tensors are produced
  and \<open>Run\<close> is left by the exception without a single deleter call.
\<close>

theorem Run_managed_tensors_counterexample:
  "fst (Run ex_abi ex_host ex_functor_throw ex_rctx ex_world) = Inl Thrown
   \<and> new_events ex_world (snd (Run ex_abi ex_host ex_functor_throw ex_rctx ex_world)) =
       [ToDLPack 0x1010 0x21010, ToDLPack 0x1011 0x21011,
        SetStream 2 0 0x5555, CallPacked [0x21010, 5, 0x21011] [7, 0, 7]]
   \<and> filter is_Deleter
        (new_events ex_world (snd (Run ex_abi ex_host ex_functor_throw ex_rctx ex_world))) = []"
  by (simp add: run_throw)

end
